theory Spec2Isabelle
  imports Complex_Main "HOL-Library.AList" "HOL-Library.Multiset" "HOL-Library.Product_Lexorder"
    "HOL-Library.List_Lexorder" "HOL-Library.Char_ord"
begin

section \<open>Errors\<close>

text \<open>
  Every exception the modelled code can raise is a value. The payloads keep what the
  messages of the source name: the rejected fold count, the metric whose mode is wrong,
  the key of a failed enum or column lookup, the segment whose history is too short.
  \<open>CollaboratorError\<close> stands for any exception raised inside a collaborator (the
  model's fit or forecast, a metric, a transform, a dataset method).
\<close>

datatype py_error =
    ValueError_n_folds int
  | ValueError_no_metrics
  | ValueError_metric_mode string
  | KeyError string
  | NotImplementedError
  | ValueError_series string
  | IndexError
  | CollaboratorError string

section \<open>Fold planning: \<open>_generate_folds_dataframes\<close>, the index arithmetic\<close>

datatype CrossValidationMode = expand_mode | constant_mode

text \<open>\<open>self._constant_history_length\<close> as \<open>__init__\<close> sets it from the mode.\<close>

fun constant_history_length :: "CrossValidationMode \<Rightarrow> int" where
  "constant_history_length expand_mode = 0"
| "constant_history_length constant_mode = 1"

text \<open>
  \<open>timestamps[i]\<close>: positional indexing of the dataset's index with a Python integer.
  A negative position counts from the end; a position outside the axis raises IndexError.
\<close>

definition getitem :: "'t list \<Rightarrow> int \<Rightarrow> py_error + 't" where
  "getitem timestamps i =
     (let n = int (length timestamps);
          j = (if i < 0 then n + i else i)
      in if 0 \<le> j \<and> j < n then Inr (timestamps ! nat j) else Inl IndexError)"

text \<open>\<open>range(n, 0, -1)\<close>: n, n - 1, ..., 1; empty when n is not positive.\<close>

definition range_down :: "int \<Rightarrow> int list" where
  "range_down n = map (\<lambda>i. n - int i) [0..<nat n]"

text \<open>
  What one iteration of the loop computes before it materialises the datasets: the four
  positions and the four timestamps read at them.
\<close>

record 't fold_spec =
  min_train_idx :: int
  max_train_idx :: int
  min_test_idx :: int
  max_test_idx :: int
  min_train :: 't
  max_train :: 't
  min_test :: 't
  max_test :: 't

definition fold_ranges ::
  "'t list \<Rightarrow> int \<Rightarrow> int \<Rightarrow> int \<Rightarrow> int \<Rightarrow> py_error + 't fold_spec" where
  "fold_ranges timestamps n_folds horizon chl offset =
     (let min_timestamp_idx = 0;
          max_timestamp_idx = int (length timestamps);
          mn_train_idx = min_timestamp_idx + (n_folds - offset) * horizon * chl;
          mx_train_idx = max_timestamp_idx - horizon * offset - 1;
          mn_test_idx = mx_train_idx + 1;
          mx_test_idx = mx_train_idx + horizon
      in case getitem timestamps mn_train_idx of Inl e \<Rightarrow> Inl e | Inr mn_train \<Rightarrow>
         case getitem timestamps mx_train_idx of Inl e \<Rightarrow> Inl e | Inr mx_train \<Rightarrow>
         case getitem timestamps mn_test_idx of Inl e \<Rightarrow> Inl e | Inr mn_test \<Rightarrow>
         case getitem timestamps mx_test_idx of Inl e \<Rightarrow> Inl e | Inr mx_test \<Rightarrow>
         Inr \<lparr>min_train_idx = mn_train_idx, max_train_idx = mx_train_idx,
              min_test_idx = mn_test_idx, max_test_idx = mx_test_idx,
              min_train = mn_train, max_train = mx_train,
              min_test = mn_test, max_test = mx_test\<rparr>)"

text \<open>
  The generator consumed to its end: the folds in the order they are yielded, or the
  first error raised on the way.
\<close>

fun plan_offsets ::
  "'t list \<Rightarrow> int \<Rightarrow> int \<Rightarrow> int \<Rightarrow> int list \<Rightarrow> py_error + 't fold_spec list" where
  "plan_offsets timestamps n_folds horizon chl [] = Inr []"
| "plan_offsets timestamps n_folds horizon chl (offset # rest) =
     (case fold_ranges timestamps n_folds horizon chl offset of
        Inl e \<Rightarrow> Inl e
      | Inr f \<Rightarrow>
          (case plan_offsets timestamps n_folds horizon chl rest of
             Inl e \<Rightarrow> Inl e
           | Inr fs \<Rightarrow> Inr (f # fs)))"

definition generate_folds ::
  "'t list \<Rightarrow> int \<Rightarrow> int \<Rightarrow> CrossValidationMode \<Rightarrow> py_error + 't fold_spec list" where
  "generate_folds timestamps n_folds horizon mode =
     plan_offsets timestamps n_folds horizon (constant_history_length mode) (range_down n_folds)"

text \<open>Two inclusive index ranges share a position.\<close>

definition ranges_overlap :: "int \<times> int \<Rightarrow> int \<times> int \<Rightarrow> bool" where
  "ranges_overlap r1 r2 = (max (fst r1) (fst r2) \<le> min (snd r1) (snd r2))"

definition train_range :: "'t fold_spec \<Rightarrow> int \<times> int" where
  "train_range f = (min_train_idx f, max_train_idx f)"

definition test_range :: "'t fold_spec \<Rightarrow> int \<times> int" where
  "test_range f = (min_test_idx f, max_test_idx f)"

section \<open>Change-point intervals: \<open>_build_intervals\<close>\<close>

text \<open>
  \<open>[None] + sorted(change_points) + [None]\<close>, then every element paired with its
  successor (\<open>zip(change_points[:-1], change_points[1:])\<close>). \<open>None\<close> is the open end.
\<close>

definition build_intervals :: "'a::linorder list \<Rightarrow> ('a option \<times> 'a option) list" where
  "build_intervals change_points =
     (let cps = [None] @ map Some (sort change_points) @ [None]
      in zip (butlast cps) (tl cps))"

section \<open>Datasets and frames\<close>

text \<open>
  A cell of a frame: a missing value, a float (taken as a real number; rounding is not
  modelled) or an integer.
\<close>

datatype cell = NaN | Num real | IntVal int

text \<open>
  Modelled from the spec: the dataset class \<open>TSDataset\<close> is not among the sources. The
  spec's dataset view exposes the ordered index and per-segment column access by
  \<open>(segment, feature)\<close>. Here it is a wide frame: the timestamp index and the columns
  keyed by \<open>(segment, feature)\<close>, in column order, each column one cell per timestamp.
  The dataset object is identified with its frame (\<open>ts.index\<close>, \<open>ts.df\<close>, \<open>ts.loc\<close>).
\<close>

record 't DataFrame =
  df_index :: "'t list"
  df_columns :: "((string \<times> string) \<times> cell list) list"

type_synonym 't TSDataset = "'t DataFrame"

text \<open>The distinct elements in the order of their first occurrence.\<close>

definition unique :: "'a list \<Rightarrow> 'a list" where
  "unique xs = rev (remdups (rev xs))"

text \<open>\<open>columns.get_level_values("segment")\<close>: the segment of every column.\<close>

definition segment_level :: "'t DataFrame \<Rightarrow> string list" where
  "segment_level d = map (\<lambda>c. fst (fst c)) (df_columns d)"

text \<open>
  Modelled from the spec: the property \<open>segments\<close> of the dataset class, which is not
  among the sources: the distinct segments of the columns.
\<close>

definition segments :: "'t TSDataset \<Rightarrow> string list" where
  "segments ts = unique (segment_level ts)"

text \<open>
  Modelled from the spec: indexing of the dataset class, which is not among the sources
  (per-segment column access by \<open>(segment, feature)\<close>). \<open>ts[:, segment, "target"]\<close> is the
  target column of one segment; a lookup of a column that does not exist raises KeyError.
\<close>

definition getitem_target :: "'t TSDataset \<Rightarrow> string \<Rightarrow> py_error + cell list" where
  "getitem_target ts segment =
     (case map_of (df_columns ts) (segment, ''target'') of
        None \<Rightarrow> Inl (KeyError ''target'')
      | Some col \<Rightarrow> Inr col)"

text \<open>
  \<open>Series.tail(n)\<close>: the last n values (all of them when there are fewer); nothing for
  \<open>n = 0\<close>; for negative n everything but the first \<open>-n\<close> values.
\<close>

definition tail :: "int \<Rightarrow> 'a list \<Rightarrow> 'a list" where
  "tail n xs =
     (if n = 0 then []
      else if 0 < n then drop (length xs - nat n) xs
      else drop (nat (- n)) xs)"

definition isna :: "cell \<Rightarrow> bool" where
  "isna c = (c = NaN)"

text \<open>
  \<open>forecast.loc[:, pd.IndexSlice[segment, column]] = value\<close>: every cell of the column
  becomes the value; a column that does not exist yet is added after the others.
\<close>

definition set_column :: "'t DataFrame \<Rightarrow> string \<times> string \<Rightarrow> cell \<Rightarrow> 't DataFrame" where
  "set_column d key v =
     d\<lparr>df_columns := AList.update key (replicate (length (df_index d)) v) (df_columns d)\<rparr>"

text \<open>
  \<open>DataFrame.append\<close>: the rows of the second frame under those of the first, over the
  union of the columns; a column one frame lacks is filled with missing values there.
\<close>

definition column_or_nan :: "'t DataFrame \<Rightarrow> string \<times> string \<Rightarrow> cell list" where
  "column_or_nan d key =
     (case map_of (df_columns d) key of
        Some col \<Rightarrow> col
      | None \<Rightarrow> replicate (length (df_index d)) NaN)"

definition df_append :: "'t DataFrame \<Rightarrow> 't DataFrame \<Rightarrow> 't DataFrame" where
  "df_append a b =
     \<lparr>df_index = df_index a @ df_index b,
      df_columns = map (\<lambda>key. (key, column_or_nan a key @ column_or_nan b key))
                       (unique (map fst (df_columns a) @ map fst (df_columns b)))\<rparr>"

definition empty_frame :: "'t DataFrame" where
  "empty_frame = \<lparr>df_index = [], df_columns = []\<rparr>"

text \<open>\<open>index.min()\<close> and \<open>index.max()\<close>; \<open>None\<close> for an empty index.\<close>

definition index_min :: "'t::linorder list \<Rightarrow> 't option" where
  "index_min xs = (case xs of [] \<Rightarrow> None | x # rest \<Rightarrow> Some (fold min rest x))"

definition index_max :: "'t::linorder list \<Rightarrow> 't option" where
  "index_max xs = (case xs of [] \<Rightarrow> None | x # rest \<Rightarrow> Some (fold max rest x))"

section \<open>The orchestrator: \<open>TimeSeriesCrossValidation\<close>\<close>

subsection \<open>Metrics, fold results, the object\<close>

text \<open>
  Modelled from the spec: the metric classes and \<open>MetricAggregationMode\<close> are not among
  the sources. A metric declares its aggregation mode and, called on the true and the
  predicted view, gives one scalar per segment. Here: its class name, its mode, and the
  call that gives one value per segment or raises.
\<close>

datatype MetricAggregationMode = per_segment | macro

record 't Metric =
  class_name :: string
  metric_mode :: MetricAggregationMode
  metric_call :: "'t TSDataset \<Rightarrow> 't TSDataset \<Rightarrow> py_error + (string \<times> real) list"

text \<open>The dictionary \<open>_run_fold\<close> builds for one fold.\<close>

record 't FoldResult =
  train_timerange :: "'t option \<times> 't option"
  test_timerange :: "'t option \<times> 't option"
  forecast :: "'t TSDataset"
  fold_metrics :: "(string \<times> (string \<times> real) list) list"

text \<open>
  The attributes of the object. \<open>cv_folds\<close> is the dictionary \<open>_folds\<close> in insertion
  order, keyed by fold number.
\<close>

record ('t, 'm) TimeSeriesCrossValidation =
  cv_model :: 'm
  cv_horizon :: int
  cv_n_jobs :: int
  cv_n_folds :: int
  cv_metrics :: "'t Metric list"
  cv_mode :: CrossValidationMode
  cv_constant_history_length :: int
  cv_fold_column :: string
  cv_folds :: "(nat \<times> 't FoldResult) list"

subsection \<open>\<open>__init__\<close>\<close>

text \<open>
  A string is the list of the bytes of its UTF-8 encoding. \<open>str.lower\<close> is a builtin of
  Python; its Unicode case mapping is not part of the program, so the constructor below
  takes it as the parameter \<open>str_lower\<close>. On strings of ASCII characters \<open>str.lower\<close>
  is \<open>ascii_lower\<close>: the letters A to Z become a to z, every other character is kept.
\<close>

definition ascii_lower_char :: "char \<Rightarrow> char" where
  "ascii_lower_char c =
     (let n = (of_char c :: nat)
      in if 65 \<le> n \<and> n \<le> 90 then char_of (n + 32) else c)"

definition ascii_lower :: "string \<Rightarrow> string" where
  "ascii_lower s = map ascii_lower_char s"

text \<open>\<open>CrossValidationMode[name]\<close>: the member of that name, or KeyError.\<close>

definition CrossValidationMode_getitem :: "string \<Rightarrow> py_error + CrossValidationMode" where
  "CrossValidationMode_getitem name =
     (if name = ''expand'' then Inr expand_mode
      else if name = ''constant'' then Inr constant_mode
      else Inl (KeyError name))"

text \<open>The loop over the metrics: the first one not in per-segment mode is rejected.\<close>

fun check_metrics :: "'t Metric list \<Rightarrow> py_error + unit" where
  "check_metrics [] = Inr ()"
| "check_metrics (metric # rest) =
     (if \<not> (metric_mode metric = per_segment)
      then Inl (ValueError_metric_mode (class_name metric))
      else check_metrics rest)"

text \<open>
  The checks in the order of the source: the fold count, the metrics, then the lookup
  of \<open>mode.lower()\<close> among the members of \<open>CrossValidationMode\<close>.
\<close>

definition init ::
  "(string \<Rightarrow> string) \<Rightarrow> 'm \<Rightarrow> int \<Rightarrow> 't Metric list \<Rightarrow> int \<Rightarrow> string \<Rightarrow> int
   \<Rightarrow> py_error + ('t, 'm) TimeSeriesCrossValidation" where
  "init str_lower model horizon metrics n_folds mode n_jobs =
     (if n_folds < 1 then Inl (ValueError_n_folds n_folds)
      else if metrics = [] then Inl ValueError_no_metrics
      else case check_metrics metrics of
        Inl e \<Rightarrow> Inl e
      | Inr _ \<Rightarrow>
          (case CrossValidationMode_getitem (str_lower mode) of
             Inl e \<Rightarrow> Inl e
           | Inr m \<Rightarrow>
               (let self = \<lparr>cv_model = model, cv_horizon = horizon, cv_n_jobs = n_jobs,
                            cv_n_folds = n_folds, cv_metrics = metrics, cv_mode = m,
                            cv_constant_history_length = 0,
                            cv_fold_column = ''fold_number'', cv_folds = []\<rparr>
                in if m = expand_mode then Inr (self\<lparr>cv_constant_history_length := 0\<rparr>)
                   else if m = constant_mode then Inr (self\<lparr>cv_constant_history_length := 1\<rparr>)
                   else Inl NotImplementedError)))"

subsection \<open>What the orchestrator calls\<close>

text \<open>
  The dataset methods, the transforms and the model are collaborators: each is a
  function that returns its result or raises. \<open>set_iter\<close> is the order in which Python
  iterates the set built from a list of names.
\<close>

record ('t, 'm) collaborators =
  train_test_split ::
    "'t TSDataset \<Rightarrow> 't \<Rightarrow> 't \<Rightarrow> 't \<Rightarrow> 't \<Rightarrow> py_error + ('t TSDataset \<times> 't TSDataset)"
  fit_transform :: "'t TSDataset \<Rightarrow> py_error + 't TSDataset"
  make_future :: "'t TSDataset \<Rightarrow> int \<Rightarrow> py_error + 't TSDataset"
  model_fit :: "'m \<Rightarrow> 't TSDataset \<Rightarrow> py_error + 'm"
  model_forecast :: "'m \<Rightarrow> 't TSDataset \<Rightarrow> py_error + 't TSDataset"
  set_iter :: "string list \<Rightarrow> string list"

text \<open>The calls made on the model and the metrics, in the order they happen.\<close>

datatype event = FitCalled nat | ForecastCalled nat | MetricCalled nat string

subsection \<open>\<open>_validate_features\<close>\<close>

fun validate_segments :: "'t TSDataset \<Rightarrow> int \<Rightarrow> string list \<Rightarrow> py_error + unit" where
  "validate_segments ts min_required_length [] = Inr ()"
| "validate_segments ts min_required_length (segment # rest) =
     (case getitem_target ts segment of
        Inl e \<Rightarrow> Inl e
      | Inr segment_target \<Rightarrow>
          if list_ex isna (tail min_required_length segment_target)
          then Inl (ValueError_series segment)
          else validate_segments ts min_required_length rest)"

definition validate_features ::
  "('t, 'm) collaborators \<Rightarrow> ('t, 'm) TimeSeriesCrossValidation \<Rightarrow> 't TSDataset
   \<Rightarrow> py_error + unit" where
  "validate_features env self ts =
     (let min_required_length = cv_horizon self * cv_n_folds self
      in validate_segments ts min_required_length (set_iter env (segment_level ts)))"

subsection \<open>One pass of \<open>_generate_folds_dataframes\<close>\<close>

definition generate_fold_dataframes ::
  "('t, 'm) collaborators \<Rightarrow> ('t, 'm) TimeSeriesCrossValidation \<Rightarrow> 't TSDataset \<Rightarrow> int
   \<Rightarrow> py_error + ('t TSDataset \<times> 't TSDataset \<times> 't TSDataset)" where
  "generate_fold_dataframes env self ts offset =
     (case fold_ranges (df_index ts) (cv_n_folds self) (cv_horizon self)
             (cv_constant_history_length self) offset of
        Inl e \<Rightarrow> Inl e
      | Inr f \<Rightarrow>
          (case train_test_split env ts (min_train f) (max_train f) (min_test f) (max_test f) of
             Inl e \<Rightarrow> Inl e
           | Inr (train, test) \<Rightarrow>
               (case fit_transform env train of
                  Inl e \<Rightarrow> Inl e
                | Inr train' \<Rightarrow>
                    (case make_future env train' (cv_horizon self) of
                       Inl e \<Rightarrow> Inl e
                     | Inr forecast_base \<Rightarrow> Inr (train', test, forecast_base)))))"

subsection \<open>\<open>_compute_metrics\<close> and \<open>_run_fold\<close>\<close>

text \<open>
  The metrics are called in order; a result is stored under the metric's class name,
  replacing an earlier result of the same name. The accumulator is the dictionary built
  so far together with the calls made.
\<close>

fun compute_metrics ::
  "'t Metric list \<Rightarrow> nat \<Rightarrow> 't TSDataset \<Rightarrow> 't TSDataset
   \<Rightarrow> (string \<times> (string \<times> real) list) list \<Rightarrow> event list
   \<Rightarrow> (py_error + (string \<times> (string \<times> real) list) list) \<times> event list" where
  "compute_metrics [] fold_number y_true y_pred acc trace = (Inr acc, trace)"
| "compute_metrics (metric # rest) fold_number y_true y_pred acc trace =
     (case metric_call metric y_true y_pred of
        Inl e \<Rightarrow> (Inl e, trace @ [MetricCalled fold_number (class_name metric)])
      | Inr v \<Rightarrow>
          compute_metrics rest fold_number y_true y_pred
            (AList.update (class_name metric) v acc)
            (trace @ [MetricCalled fold_number (class_name metric)]))"

definition run_fold ::
  "('t::linorder, 'm) collaborators \<Rightarrow> ('t, 'm) TimeSeriesCrossValidation
   \<Rightarrow> 't TSDataset \<Rightarrow> 't TSDataset \<Rightarrow> 't TSDataset \<Rightarrow> nat
   \<Rightarrow> (py_error + nat \<times> 't FoldResult) \<times> event list" where
  "run_fold env self train test forecast_base fold_number =
     (let train_tr = (index_min (df_index train), index_max (df_index train));
          test_tr = (index_min (df_index test), index_max (df_index test))
      in case model_fit env (cv_model self) train of
           Inl e \<Rightarrow> (Inl e, [FitCalled fold_number])
         | Inr model \<Rightarrow>
             (case model_forecast env model forecast_base of
                Inl e \<Rightarrow> (Inl e, [FitCalled fold_number, ForecastCalled fold_number])
              | Inr fc \<Rightarrow>
                  (case compute_metrics (cv_metrics self) fold_number test fc []
                          [FitCalled fold_number, ForecastCalled fold_number] of
                     (Inl e, trace) \<Rightarrow> (Inl e, trace)
                   | (Inr ms, trace) \<Rightarrow>
                       (Inr (fold_number,
                             \<lparr>train_timerange = train_tr, test_timerange = test_tr,
                              forecast = fc, fold_metrics = ms\<rparr>), trace))))"

subsection \<open>The three queries\<close>

text \<open>
  \<open>get_forecasts\<close> writes the fold number into the stored forecast of every fold, one
  column per segment of the forecast, and stacks the forecasts. It returns the stacked
  frame and the object as it is afterwards.
\<close>

definition tag_forecast :: "string \<Rightarrow> nat \<Rightarrow> 't TSDataset \<Rightarrow> 't TSDataset" where
  "tag_forecast fold_column fold_number fc =
     foldl (\<lambda>d segment. set_column d (segment, fold_column) (IntVal (int fold_number)))
       fc (segments fc)"

fun get_forecasts_loop ::
  "string \<Rightarrow> (nat \<times> 't FoldResult) list \<Rightarrow> 't DataFrame
   \<Rightarrow> 't DataFrame \<times> (nat \<times> 't FoldResult) list" where
  "get_forecasts_loop fold_column [] stacked_forecast = (stacked_forecast, [])"
| "get_forecasts_loop fold_column ((fold_number, fold_info) # rest) stacked_forecast =
     (let fc = tag_forecast fold_column fold_number (forecast fold_info);
          (stacked, rest') = get_forecasts_loop fold_column rest (df_append stacked_forecast fc)
      in (stacked, (fold_number, fold_info\<lparr>forecast := fc\<rparr>) # rest'))"

definition get_forecasts ::
  "('t, 'm) TimeSeriesCrossValidation \<Rightarrow> 't DataFrame \<times> ('t, 'm) TimeSeriesCrossValidation" where
  "get_forecasts self =
     (let (stacked, folds') = get_forecasts_loop (cv_fold_column self) (cv_folds self) empty_frame
      in (stacked, self\<lparr>cv_folds := folds'\<rparr>))"

text \<open>
  The metrics table. A row is a segment of a fold with the values of that segment, one
  per metric column; a value a frame does not have is missing (\<open>None\<close>). The frame of a
  fold has one row per segment that any of its metrics names.
\<close>

record metrics_row =
  row_segment :: string
  row_fold_number :: nat
  row_values :: "(string \<times> real option) list"

record aggregated_row =
  agg_segment :: string
  agg_values :: "(string \<times> real option) list"

datatype metrics_df =
    PerFold "string list" "metrics_row list"
  | Aggregated "string list" "aggregated_row list"

definition fold_metrics_frame ::
  "nat \<Rightarrow> (string \<times> (string \<times> real) list) list \<Rightarrow> string list \<times> metrics_row list" where
  "fold_metrics_frame i ms =
     (map fst ms,
      map (\<lambda>segment.
             \<lparr>row_segment = segment, row_fold_number = i,
              row_values = map (\<lambda>(name, values). (name, map_of values segment)) ms\<rparr>)
          (unique (concat (map (\<lambda>(name, values). map fst values) ms))))"

fun append_fold_metrics ::
  "(nat \<times> 't FoldResult) list \<Rightarrow> string list \<times> metrics_row list
   \<Rightarrow> string list \<times> metrics_row list" where
  "append_fold_metrics [] metrics_df = metrics_df"
| "append_fold_metrics ((i, fold_i) # rest) metrics_df =
     (let fm = fold_metrics_frame i (fold_metrics fold_i)
      in append_fold_metrics rest (unique (fst metrics_df @ fst fm), snd metrics_df @ snd fm))"

text \<open>The mean of the values that are not missing; missing when there is none.\<close>

definition mean_skipna :: "real option list \<Rightarrow> real option" where
  "mean_skipna xs =
     (let vs = List.map_filter id xs
      in if vs = [] then None else Some (sum_list vs / real (length vs)))"

definition cell_of :: "metrics_row \<Rightarrow> string \<Rightarrow> real option" where
  "cell_of r name = (case map_of (row_values r) name of Some v \<Rightarrow> v | None \<Rightarrow> None)"

definition groupby_segment_mean :: "string list \<Rightarrow> metrics_row list \<Rightarrow> aggregated_row list" where
  "groupby_segment_mean names rows =
     map (\<lambda>segment.
            \<lparr>agg_segment = segment,
             agg_values = map (\<lambda>name. (name, mean_skipna
                                 (map (\<lambda>r. cell_of r name)
                                    (filter (\<lambda>r. row_segment r = segment) rows)))) names\<rparr>)
         (sort (unique (map row_segment rows)))"

text \<open>
  \<open>get_metrics\<close> and \<open>get_fold_info\<close> are methods of the object like \<open>get_forecasts\<close>:
  each returns its table (or the exception) and the object as it is afterwards. Sorting
  the frame built from no fold fails on the missing column \<open>segment\<close>.
\<close>

definition get_metrics ::
  "('t, 'm) TimeSeriesCrossValidation \<Rightarrow> bool
   \<Rightarrow> (py_error + metrics_df) \<times> ('t, 'm) TimeSeriesCrossValidation" where
  "get_metrics self aggregate_metrics =
     (let (names, rows) = append_fold_metrics (cv_folds self) ([], [])
      in if cv_folds self = [] then (Inl (KeyError ''segment''), self)
         else let sorted_rows = sort_key (\<lambda>r. (row_segment r, row_fold_number r)) rows
              in if aggregate_metrics
                 then (Inr (Aggregated names (groupby_segment_mean names sorted_rows)), self)
                 else (Inr (PerFold names sorted_rows), self))"

record 't fold_info_row =
  train_start_time :: "'t option"
  train_end_time :: "'t option"
  test_start_time :: "'t option"
  test_end_time :: "'t option"
  info_fold_number :: nat

definition get_fold_info ::
  "('t, 'm) TimeSeriesCrossValidation
   \<Rightarrow> 't fold_info_row list \<times> ('t, 'm) TimeSeriesCrossValidation" where
  "get_fold_info self =
     (map (\<lambda>(fold_number, fold_info).
             \<lparr>train_start_time = fst (train_timerange fold_info),
              train_end_time = snd (train_timerange fold_info),
              test_start_time = fst (test_timerange fold_info),
              test_end_time = snd (test_timerange fold_info),
              info_fold_number = fold_number\<rparr>)
          (cv_folds self),
      self)"

subsection \<open>\<open>backtest\<close>\<close>

text \<open>
  The folds are generated and run one after the other, numbered from 0; the first
  exception stops the run. The result is the list of \<open>(fold_number, fold)\<close> pairs.
\<close>

fun run_folds ::
  "('t::linorder, 'm) collaborators \<Rightarrow> ('t, 'm) TimeSeriesCrossValidation \<Rightarrow> 't TSDataset
   \<Rightarrow> int list \<Rightarrow> nat \<Rightarrow> (py_error + (nat \<times> 't FoldResult) list) \<times> event list" where
  "run_folds env self ts [] i = (Inr [], [])"
| "run_folds env self ts (offset # rest) i =
     (case generate_fold_dataframes env self ts offset of
        Inl e \<Rightarrow> (Inl e, [])
      | Inr (train, test, forecast_base) \<Rightarrow>
          (case run_fold env self train test forecast_base i of
             (Inl e, trace) \<Rightarrow> (Inl e, trace)
           | (Inr fold_i, trace) \<Rightarrow>
               (case run_folds env self ts rest (Suc i) of
                  (Inl e, trace') \<Rightarrow> (Inl e, trace @ trace')
                | (Inr folds, trace') \<Rightarrow> (Inr (fold_i # folds), trace @ trace'))))"

text \<open>\<open>for i, fold in folds: self._folds[i] = fold\<close>.\<close>

fun store_folds ::
  "(nat \<times> 't FoldResult) list \<Rightarrow> (nat \<times> 't FoldResult) list \<Rightarrow> (nat \<times> 't FoldResult) list" where
  "store_folds [] stored = stored"
| "store_folds ((i, fold_i) # rest) stored = store_folds rest (AList.update i fold_i stored)"

text \<open>
  What a call of \<open>backtest\<close> leaves behind: the three tables or the exception, the
  object afterwards, and the calls made on the model and the metrics.
\<close>

record ('t, 'm) outcome =
  result :: "py_error + (metrics_df \<times> 't DataFrame \<times> 't fold_info_row list)"
  self_after :: "('t, 'm) TimeSeriesCrossValidation"
  calls :: "event list"

definition backtest ::
  "('t::linorder, 'm) collaborators \<Rightarrow> ('t, 'm) TimeSeriesCrossValidation \<Rightarrow> 't TSDataset
   \<Rightarrow> ('t, 'm) outcome" where
  "backtest env self ts =
     (case validate_features env self ts of
        Inl e \<Rightarrow> \<lparr>result = Inl e, self_after = self, calls = []\<rparr>
      | Inr _ \<Rightarrow>
          (case run_folds env self ts (range_down (cv_n_folds self)) 0 of
             (Inl e, trace) \<Rightarrow> \<lparr>result = Inl e, self_after = self, calls = trace\<rparr>
           | (Inr folds, trace) \<Rightarrow>
               (let self1 = self\<lparr>cv_folds := store_folds folds (cv_folds self)\<rparr>
                in case get_metrics self1 False of
                     (Inl e, self2) \<Rightarrow> \<lparr>result = Inl e, self_after = self2, calls = trace\<rparr>
                   | (Inr metrics_df, self2) \<Rightarrow>
                       (let (forecast_df, self3) = get_forecasts self2;
                            (fold_info_df, self4) = get_fold_info self3
                        in \<lparr>result = Inr (metrics_df, forecast_df, fold_info_df),
                            self_after = self4, calls = trace\<rparr>))))"

section \<open>Notions the properties are stated with\<close>

text \<open>
  The target series of a segment has a missing value among its last n points.
\<close>

definition has_missing_tail :: "'t TSDataset \<Rightarrow> int \<Rightarrow> string \<Rightarrow> bool" where
  "has_missing_tail ts n segment =
     (case map_of (df_columns ts) (segment, ''target'') of
        None \<Rightarrow> False
      | Some col \<Rightarrow> NaN \<in> set (tail n col))"

text \<open>\<open>fold["metrics"][name][segment]\<close>, when the fold has it.\<close>

definition metric_value :: "'t FoldResult \<Rightarrow> string \<Rightarrow> string \<Rightarrow> real option" where
  "metric_value fold_info name segment =
     (case map_of (fold_metrics fold_info) name of
        None \<Rightarrow> None
      | Some values \<Rightarrow> map_of values segment)"

text \<open>The segments a stored fold has metric values for.\<close>

definition fold_segments :: "'t FoldResult \<Rightarrow> string set" where
  "fold_segments fold_info = (\<Union>(name, values) \<in> set (fold_metrics fold_info). fst ` set values)"

text \<open>
  A frame carries the constant v in column c of segment seg; what \<open>get_forecasts\<close>
  does to one stored fold.
\<close>

definition tagged_for :: "string \<Rightarrow> cell \<Rightarrow> 't DataFrame \<Rightarrow> string \<Rightarrow> bool" where
  "tagged_for c v d seg \<longleftrightarrow>
     map_of (df_columns d) (seg, c) = Some (replicate (length (df_index d)) v)"

definition tag_fold :: "string \<Rightarrow> nat \<times> 't FoldResult \<Rightarrow> nat \<times> 't FoldResult" where
  "tag_fold c p = (fst p, (snd p)\<lparr>forecast := tag_forecast c (fst p) (forecast (snd p))\<rparr>)"

text \<open>The rows all stored folds contribute to the metrics table, before sorting.\<close>

definition fold_rows :: "nat \<times> 't FoldResult \<Rightarrow> metrics_row list" where
  "fold_rows p = snd (fold_metrics_frame (fst p) (fold_metrics (snd p)))"

definition row_key :: "metrics_row \<Rightarrow> string \<times> nat" where
  "row_key r = (row_segment r, row_fold_number r)"


section \<open>Example inputs\<close>

text \<open>
  A dataset of two segments over four timestamps, the first point of segment b missing;
  collaborators that hand their input on; a metric with fixed values.
\<close>

definition demo_ts :: "int TSDataset" where
  "demo_ts =
     \<lparr>df_index = [0, 1, 2, 3],
      df_columns = [((''a'', ''target''), [Num 1, Num 2, Num 3, Num 4]),
                    ((''b'', ''target''), [NaN, Num 2, Num 3, Num 4])]\<rparr>"

definition demo_env :: "(int, unit) collaborators" where
  "demo_env =
     \<lparr>train_test_split = (\<lambda>ts a b c d. Inr (ts, ts)),
      fit_transform = (\<lambda>ts. Inr ts),
      make_future = (\<lambda>ts h. Inr ts),
      model_fit = (\<lambda>m ts. Inr m),
      model_forecast = (\<lambda>m ts. Inr ts),
      set_iter = remdups\<rparr>"

definition demo_metric :: "int Metric" where
  "demo_metric =
     \<lparr>class_name = ''MAE'', metric_mode = per_segment,
      metric_call = (\<lambda>y_true y_pred. Inr [(''a'', 1), (''b'', 3)])\<rparr>"

definition demo_cv :: "int \<Rightarrow> (int, unit) TimeSeriesCrossValidation" where
  "demo_cv n_folds =
     \<lparr>cv_model = (), cv_horizon = 1, cv_n_jobs = 1, cv_n_folds = n_folds,
      cv_metrics = [demo_metric], cv_mode = expand_mode, cv_constant_history_length = 0,
      cv_fold_column = ''fold_number'', cv_folds = []\<rparr>"

text \<open>An object holding the results of two folds.\<close>

definition demo_stored :: "(int, unit) TimeSeriesCrossValidation" where
  "demo_stored =
     (demo_cv 2)\<lparr>cv_folds :=
        [(0, \<lparr>train_timerange = (Some 0, Some 1), test_timerange = (Some 2, Some 2),
              forecast = demo_ts, fold_metrics = [(''MAE'', [(''b'', 3), (''a'', 1)])]\<rparr>),
         (1, \<lparr>train_timerange = (Some 0, Some 2), test_timerange = (Some 3, Some 3),
              forecast = demo_ts, fold_metrics = [(''MAE'', [(''b'', 5), (''a'', 3)])]\<rparr>)]\<rparr>"

section \<open>Properties of the fold planner\<close>

subsection \<open>Closed form of the generated folds\<close>

lemma getitem_Inr:
  "0 \<le> i \<Longrightarrow> i < int (length ts) \<Longrightarrow> getitem ts i = Inr (ts ! nat i)"
  by (simp add: getitem_def)

lemma getitem_neg_Inr:
  "i < 0 \<Longrightarrow> 0 \<le> int (length ts) + i \<Longrightarrow> getitem ts i = Inr (ts ! nat (int (length ts) + i))"
  by (simp add: getitem_def)

lemma getitem_ok:
  "- int (length ts) \<le> i \<Longrightarrow> i < int (length ts) \<Longrightarrow> \<exists>t. getitem ts i = Inr t"
  by (cases "i < 0") (simp_all add: getitem_Inr getitem_neg_Inr)

lemma offset_bounds:
  fixes H K offset N :: int
  assumes "1 \<le> H" "1 \<le> offset" "offset \<le> K" "K * H \<le> N"
  shows "H \<le> H * offset" "H * offset \<le> N" "0 \<le> (K - offset) * H" "(K - offset) * H + H \<le> N"
proof -
  show "H \<le> H * offset" using assms(1,2) mult_left_mono[of 1 offset H] by simp
  have "H * offset \<le> H * K" using assms(1,3) by (intro mult_left_mono) auto
  then show "H * offset \<le> N" using assms(4) by (simp add: mult.commute)
  show "0 \<le> (K - offset) * H" using assms(1,3) by simp
  have "(K - offset) * H + H = (K - offset + 1) * H" by (simp add: algebra_simps)
  also have "\<dots> \<le> K * H" using assms(1,2) by (intro mult_right_mono) auto
  finally show "(K - offset) * H + H \<le> N" using assms(4) by simp
qed

lemma fold_ranges_ok:
  fixes ts :: "'t list"
  assumes "1 \<le> H" "1 \<le> offset" "offset \<le> K" "K * H \<le> int (length ts)" "c = 0 \<or> c = 1"
  shows "\<exists>f. fold_ranges ts K H c offset = Inr f
           \<and> min_train_idx f = (K - offset) * H * c
           \<and> max_train_idx f = int (length ts) - H * offset - 1
           \<and> min_test_idx f = int (length ts) - H * offset
           \<and> max_test_idx f = int (length ts) - H * offset - 1 + H"
proof -
  let ?N = "int (length ts)"
  note b = offset_bounds[OF assms(1-4)]
  have c0: "0 \<le> (K - offset) * H * c" "(K - offset) * H * c < ?N"
    using assms(5) b assms(1) by auto
  obtain a where a: "getitem ts ((K - offset) * H * c) = Inr a"
    using getitem_ok[of ts "(K - offset) * H * c"] c0 by auto
  obtain b' where b': "getitem ts (?N - H * offset - 1) = Inr b'"
    using getitem_ok[of ts "?N - H * offset - 1"] b assms(1) by auto
  obtain c' where c': "getitem ts (?N - H * offset - 1 + 1) = Inr c'"
    using getitem_ok[of ts "?N - H * offset - 1 + 1"] b assms(1) by auto
  obtain d where d: "getitem ts (?N - H * offset - 1 + H) = Inr d"
    using getitem_ok[of ts "?N - H * offset - 1 + H"] b assms(1) by auto
  show ?thesis
    using a b' c' d by (simp add: fold_ranges_def Let_def)
qed


lemma plan_offsets_ok:
  fixes ts :: "'t list"
  assumes "1 \<le> H" "K * H \<le> int (length ts)" "c = 0 \<or> c = 1"
    and "\<forall>offset \<in> set offs. 1 \<le> offset \<and> offset \<le> K"
  shows "\<exists>fs. plan_offsets ts K H c offs = Inr fs \<and> length fs = length offs
           \<and> (\<forall>i < length offs.
                 min_train_idx (fs ! i) = (K - offs ! i) * H * c
               \<and> max_train_idx (fs ! i) = int (length ts) - H * (offs ! i) - 1
               \<and> min_test_idx (fs ! i) = int (length ts) - H * (offs ! i)
               \<and> max_test_idx (fs ! i) = int (length ts) - H * (offs ! i) - 1 + H)"
  using assms(4)
proof (induction offs)
  case Nil
  show ?case by simp
next
  case (Cons offset rest)
  from Cons.prems have o: "1 \<le> offset" "offset \<le> K" by auto
  obtain f where f: "fold_ranges ts K H c offset = Inr f"
      "min_train_idx f = (K - offset) * H * c"
      "max_train_idx f = int (length ts) - H * offset - 1"
      "min_test_idx f = int (length ts) - H * offset"
      "max_test_idx f = int (length ts) - H * offset - 1 + H"
    using fold_ranges_ok[OF assms(1) o assms(2) assms(3)] by blast
  obtain fs where fs: "plan_offsets ts K H c rest = Inr fs" "length fs = length rest"
      "\<forall>i < length rest.
                 min_train_idx (fs ! i) = (K - rest ! i) * H * c
               \<and> max_train_idx (fs ! i) = int (length ts) - H * (rest ! i) - 1
               \<and> min_test_idx (fs ! i) = int (length ts) - H * (rest ! i)
               \<and> max_test_idx (fs ! i) = int (length ts) - H * (rest ! i) - 1 + H"
    using Cons.IH Cons.prems by auto
  have "plan_offsets ts K H c (offset # rest) = Inr (f # fs)"
    using f(1) fs(1) by simp
  moreover have "length (f # fs) = length (offset # rest)"
    using fs(2) by simp
  moreover have "\<forall>i < length (offset # rest).
                 min_train_idx ((f # fs) ! i) = (K - (offset # rest) ! i) * H * c
               \<and> max_train_idx ((f # fs) ! i) = int (length ts) - H * ((offset # rest) ! i) - 1
               \<and> min_test_idx ((f # fs) ! i) = int (length ts) - H * ((offset # rest) ! i)
               \<and> max_test_idx ((f # fs) ! i) = int (length ts) - H * ((offset # rest) ! i) - 1 + H"
  proof (intro allI impI)
    fix i assume "i < length (offset # rest)"
    then show "min_train_idx ((f # fs) ! i) = (K - (offset # rest) ! i) * H * c
               \<and> max_train_idx ((f # fs) ! i) = int (length ts) - H * ((offset # rest) ! i) - 1
               \<and> min_test_idx ((f # fs) ! i) = int (length ts) - H * ((offset # rest) ! i)
               \<and> max_test_idx ((f # fs) ! i) = int (length ts) - H * ((offset # rest) ! i) - 1 + H"
      using f(2-5) fs(3) by (cases i) simp_all
  qed
  ultimately show ?case by blast
qed

lemma range_down_props:
  "length (range_down K) = nat K"
  "i < nat K \<Longrightarrow> range_down K ! i = K - int i"
  "\<forall>offset \<in> set (range_down K). 1 \<le> offset \<and> offset \<le> K"
  by (auto simp: range_down_def)

lemma chl_cases: "constant_history_length mode = 0 \<or> constant_history_length mode = 1"
  by (cases mode) simp_all

lemma generate_folds_nth:
  fixes ts :: "'t list"
  assumes "1 \<le> H" "K * H \<le> int (length ts)"
  shows "\<exists>fs. generate_folds ts K H mode = Inr fs \<and> length fs = nat K
           \<and> (\<forall>i < nat K.
                 min_train_idx (fs ! i) = int i * H * constant_history_length mode
               \<and> max_train_idx (fs ! i) = int (length ts) - H * (K - int i) - 1
               \<and> min_test_idx (fs ! i) = int (length ts) - H * (K - int i)
               \<and> max_test_idx (fs ! i) = int (length ts) - H * (K - int i) - 1 + H)"
  using plan_offsets_ok[OF assms chl_cases range_down_props(3), of mode]
  by (auto simp: generate_folds_def range_down_props)

lemma test_windows_increasing:
  fixes H K N :: int
  assumes "1 \<le> H" "i < j"
  shows "N - H * (K - int i) - 1 + H < N - H * (K - int j)"
proof -
  have "int i + 1 \<le> int j" using assms(2) by simp
  then have "H * (int i + 1) \<le> H * int j" using assms(1) by (intro mult_left_mono) auto
  then show ?thesis by (simp add: algebra_simps)
qed

lemma test_window_cover:
  fixes H K N x :: int
  assumes "1 \<le> H" "1 \<le> K" "N - K * H \<le> x" "x \<le> N - 1"
  shows "\<exists>i < nat K. N - H * (K - int i) \<le> x \<and> x \<le> N - H * (K - int i) - 1 + H"
proof -
  define d where "d = x - (N - K * H)"
  have d: "0 \<le> d" "d < K * H" using assms by (auto simp: d_def)
  define q where "q = d div H"
  have q0: "0 \<le> q" using d(1) assms(1) by (simp add: q_def pos_imp_zdiv_nonneg_iff)
  have m: "q * H \<le> d" "d < q * H + H"
  proof -
    have "d = q * H + d mod H" by (simp add: q_def)
    moreover have "0 \<le> d mod H" "d mod H < H" using assms(1) by auto
    ultimately show "q * H \<le> d" "d < q * H + H" by linarith+
  qed
  have qK: "q < K"
  proof (rule ccontr)
    assume "\<not> q < K"
    then have "K * H \<le> q * H" using assms(1) by (intro mult_right_mono) auto
    then show False using m(1) d(2) by linarith
  qed
  have "nat q < nat K" using q0 qK by simp
  moreover have "N - H * (K - int (nat q)) \<le> x" "x \<le> N - H * (K - int (nat q)) - 1 + H"
    using m q0 by (simp_all add: d_def algebra_simps)
  ultimately show ?thesis by blast
qed

text \<open>
  With one point more than \<open>n_folds * horizon\<close> every position the loop computes lies on
  the axis and every train range is non-empty.
\<close>

lemma indices_valid_with_one_more_point:
  fixes ts :: "'t list"
  assumes "1 \<le> K" "1 \<le> H" "K * H < int (length ts)"
  shows "\<exists>fs. generate_folds ts K H mode = Inr fs \<and> length fs = nat K
           \<and> (\<forall>i < length fs.
                 0 \<le> min_train_idx (fs ! i)
               \<and> min_train_idx (fs ! i) \<le> max_train_idx (fs ! i)
               \<and> max_train_idx (fs ! i) < min_test_idx (fs ! i)
               \<and> min_test_idx (fs ! i) \<le> max_test_idx (fs ! i)
               \<and> max_test_idx (fs ! i) \<le> int (length ts) - 1)"
proof -
  let ?N = "int (length ts)"
  have le: "K * H \<le> ?N" using assms(3) by simp
  obtain fs where fs: "generate_folds ts K H mode = Inr fs" "length fs = nat K"
    and idx: "\<And>i. i < nat K \<Longrightarrow>
                 min_train_idx (fs ! i) = int i * H * constant_history_length mode
               \<and> max_train_idx (fs ! i) = ?N - H * (K - int i) - 1
               \<and> min_test_idx (fs ! i) = ?N - H * (K - int i)
               \<and> max_test_idx (fs ! i) = ?N - H * (K - int i) - 1 + H"
    using generate_folds_nth[OF assms(2) le, of mode] by blast
  have "\<forall>i < length fs.
                 0 \<le> min_train_idx (fs ! i)
               \<and> min_train_idx (fs ! i) \<le> max_train_idx (fs ! i)
               \<and> max_train_idx (fs ! i) < min_test_idx (fs ! i)
               \<and> min_test_idx (fs ! i) \<le> max_test_idx (fs ! i)
               \<and> max_test_idx (fs ! i) \<le> int (length ts) - 1"
  proof (intro allI impI)
    fix i assume "i < length fs"
    then have i: "i < nat K" using fs(2) by simp
    have a: "0 \<le> int i * H" using assms(2) by simp
    have "int i + 1 \<le> K" using i by simp
    then have b: "H * (int i + 1) \<le> H * K" using assms(2) by (intro mult_left_mono) auto
    have c: "int i * H * constant_history_length mode \<le> int i * H"
      using a chl_cases[of mode] by auto
    have d: "0 \<le> int i * H * constant_history_length mode"
      using a chl_cases[of mode] by auto
    have e: "int i * H \<le> ?N - H * (K - int i) - 1"
      using assms(3) by (simp add: algebra_simps)
    have f: "H * (K - int i) - H = H * K - H * (int i + 1)"
      by (simp add: algebra_simps)
    note x = idx[OF i]
    have "0 \<le> min_train_idx (fs ! i)" using x d by linarith
    moreover have "min_train_idx (fs ! i) \<le> max_train_idx (fs ! i)" using x c e by linarith
    moreover have "max_train_idx (fs ! i) < min_test_idx (fs ! i)" using x by linarith
    moreover have "min_test_idx (fs ! i) \<le> max_test_idx (fs ! i)" using x assms(2) by linarith
    moreover have "max_test_idx (fs ! i) \<le> int (length ts) - 1" using x b f by linarith
    ultimately show "0 \<le> min_train_idx (fs ! i)
               \<and> min_train_idx (fs ! i) \<le> max_train_idx (fs ! i)
               \<and> max_train_idx (fs ! i) < min_test_idx (fs ! i)
               \<and> min_test_idx (fs ! i) \<le> max_test_idx (fs ! i)
               \<and> max_test_idx (fs ! i) \<le> int (length ts) - 1"
      by blast
  qed
  then show ?thesis using fs by blast
qed

subsection \<open>Test windows\<close>

text \<open>
  Claim C5. For an axis of N timestamps, \<open>n_folds = K \<ge> 1\<close> and \<open>horizon = H \<ge> 1\<close>
  with \<open>N \<ge> K * H\<close>, under either mode the generator raises nothing and yields exactly K
  folds; every test range has exactly H positions; the test range of an earlier fold
  ends before the test range of any later fold begins, so the test ranges are pairwise
  disjoint; and together the test ranges are exactly the last \<open>K * H\<close> positions of the
  axis, ending at position \<open>N - 1\<close>.
\<close>

theorem planner_test_windows:
  fixes ts :: "'t list"
  assumes "1 \<le> K" "1 \<le> H" "K * H \<le> int (length ts)"
  shows "\<exists>fs. generate_folds ts K H mode = Inr fs
           \<and> length fs = nat K
           \<and> (\<forall>i < length fs. max_test_idx (fs ! i) - min_test_idx (fs ! i) + 1 = H)
           \<and> (\<forall>j < length fs. \<forall>i < j. max_test_idx (fs ! i) < min_test_idx (fs ! j))
           \<and> (\<forall>i < length fs. \<forall>j < length fs. i \<noteq> j \<longrightarrow>
                 \<not> ranges_overlap (test_range (fs ! i)) (test_range (fs ! j)))
           \<and> (\<Union>f \<in> set fs. {min_test_idx f .. max_test_idx f})
               = {int (length ts) - K * H .. int (length ts) - 1}
           \<and> Max (\<Union>f \<in> set fs. {min_test_idx f .. max_test_idx f}) = int (length ts) - 1"
proof -
  let ?N = "int (length ts)"
  obtain fs where fs: "generate_folds ts K H mode = Inr fs" "length fs = nat K"
    and idx: "\<And>i. i < nat K \<Longrightarrow>
                 min_test_idx (fs ! i) = ?N - H * (K - int i)
               \<and> max_test_idx (fs ! i) = ?N - H * (K - int i) - 1 + H"
    using generate_folds_nth[OF assms(2,3), of mode] by blast
  have len: "\<forall>i < length fs. max_test_idx (fs ! i) - min_test_idx (fs ! i) + 1 = H"
    using idx fs(2) by simp
  have inc: "\<forall>j < length fs. \<forall>i < j. max_test_idx (fs ! i) < min_test_idx (fs ! j)"
  proof (intro allI impI)
    fix j i assume "j < length fs" "i < j"
    then show "max_test_idx (fs ! i) < min_test_idx (fs ! j)"
      using idx[of i] idx[of j] fs(2) test_windows_increasing[OF assms(2), of i j ?N K] by simp
  qed
  have disj: "\<forall>i < length fs. \<forall>j < length fs. i \<noteq> j \<longrightarrow>
                 \<not> ranges_overlap (test_range (fs ! i)) (test_range (fs ! j))"
  proof (intro allI impI)
    fix i j assume ij: "i < length fs" "j < length fs" "i \<noteq> j"
    have Hi: "min_test_idx (fs ! i) \<le> max_test_idx (fs ! i)"
      and Hj: "min_test_idx (fs ! j) \<le> max_test_idx (fs ! j)"
    proof -
      have "max_test_idx (fs ! i) - min_test_idx (fs ! i) + 1 = H"
        "max_test_idx (fs ! j) - min_test_idx (fs ! j) + 1 = H"
        using len ij by blast+
      then show "min_test_idx (fs ! i) \<le> max_test_idx (fs ! i)"
        "min_test_idx (fs ! j) \<le> max_test_idx (fs ! j)"
        using assms(2) by linarith+
    qed
    consider "i < j" | "j < i" using ij(3) by linarith
    then show "\<not> ranges_overlap (test_range (fs ! i)) (test_range (fs ! j))"
    proof cases
      case 1
      then have "max_test_idx (fs ! i) < min_test_idx (fs ! j)" using inc ij by blast
      then show ?thesis using Hi Hj by (simp add: ranges_overlap_def test_range_def)
    next
      case 2
      then have "max_test_idx (fs ! j) < min_test_idx (fs ! i)" using inc ij by blast
      then show ?thesis using Hi Hj by (simp add: ranges_overlap_def test_range_def)
    qed
  qed
  have un: "(\<Union>f \<in> set fs. {min_test_idx f .. max_test_idx f}) = {?N - K * H .. ?N - 1}"
  proof (intro set_eqI iffI)
    fix x assume "x \<in> (\<Union>f \<in> set fs. {min_test_idx f .. max_test_idx f})"
    then obtain i where i: "i < nat K" "min_test_idx (fs ! i) \<le> x" "x \<le> max_test_idx (fs ! i)"
      using fs(2) by (auto simp: in_set_conv_nth)
    have "0 \<le> H * int i" using assms(2) by simp
    then have lo: "?N - K * H \<le> ?N - H * (K - int i)"
      by (simp add: algebra_simps)
    have "int i + 1 \<le> K" using i(1) by simp
    then have "H * (int i + 1) \<le> H * K" using assms(2) by (intro mult_left_mono) auto
    then have hi: "?N - H * (K - int i) - 1 + H \<le> ?N - 1"
      by (simp add: algebra_simps)
    have "?N - K * H \<le> x" "x \<le> ?N - 1"
      using lo hi i(2,3) idx[of i] i(1) by linarith+
    then show "x \<in> {?N - K * H .. ?N - 1}" by simp
  next
    fix x assume "x \<in> {?N - K * H .. ?N - 1}"
    then obtain i where i: "i < nat K" "?N - H * (K - int i) \<le> x" "x \<le> ?N - H * (K - int i) - 1 + H"
      using test_window_cover[OF assms(2,1), of ?N x] by auto
    then have "fs ! i \<in> set fs" "x \<in> {min_test_idx (fs ! i) .. max_test_idx (fs ! i)}"
      using idx[of i] fs(2) by auto
    then show "x \<in> (\<Union>f \<in> set fs. {min_test_idx f .. max_test_idx f})" by blast
  qed
  have "1 * 1 \<le> K * H" using assms(1,2) by (intro mult_mono) auto
  then have mx: "Max {?N - K * H .. ?N - 1} = ?N - 1" by (simp add: Max_eq_iff)
  show ?thesis
    apply (rule exI[of _ fs])
    apply (intro conjI)
          apply (rule fs(1))
         apply (rule fs(2))
        apply (rule len)
       apply (rule inc)
      apply (rule disj)
     apply (rule un)
    apply (simp only: un mx)
    done
qed

theorem planner_test_windows_witness:
  "(1::int) \<le> 3 \<and> (1::int) \<le> 2 \<and> (3::int) * 2 \<le> int (length [0, 1, 2, 3, 4, 5, 6, 7, 8, 9 :: int])
   \<and> (\<exists>fs. generate_folds [0, 1, 2, 3, 4, 5, 6, 7, 8, 9 :: int] 3 2 constant_mode = Inr fs
           \<and> length fs = nat 3
           \<and> (\<forall>i < length fs. max_test_idx (fs ! i) - min_test_idx (fs ! i) + 1 = 2)
           \<and> (\<forall>j < length fs. \<forall>i < j. max_test_idx (fs ! i) < min_test_idx (fs ! j))
           \<and> (\<forall>i < length fs. \<forall>j < length fs. i \<noteq> j \<longrightarrow>
                 \<not> ranges_overlap (test_range (fs ! i)) (test_range (fs ! j)))
           \<and> (\<Union>f \<in> set fs. {min_test_idx f .. max_test_idx f}) = {4 .. 9}
           \<and> Max (\<Union>f \<in> set fs. {min_test_idx f .. max_test_idx f}) = 9)"
  using planner_test_windows[of 3 2 "[0, 1, 2, 3, 4, 5, 6, 7, 8, 9 :: int]" constant_mode]
  by simp

subsection \<open>Train windows\<close>

text \<open>
  Claim C6. For \<open>K \<ge> 1\<close>, \<open>H \<ge> 1\<close> and \<open>N \<ge> K * H\<close>: in mode \<open>expand\<close> every fold's
  train range starts at position 0; in mode \<open>constant\<close> all train ranges have the same
  length (\<open>max_train_idx - min_train_idx + 1\<close>) and the train range of fold \<open>i + 1\<close> starts
  H positions after the train range of fold \<open>i\<close>.
\<close>

theorem planner_train_windows:
  fixes ts :: "'t list"
  assumes "1 \<le> K" "1 \<le> H" "K * H \<le> int (length ts)"
  shows "\<exists>fe fc. generate_folds ts K H expand_mode = Inr fe \<and> length fe = nat K
           \<and> generate_folds ts K H constant_mode = Inr fc \<and> length fc = nat K
           \<and> (\<forall>i < length fe. min_train_idx (fe ! i) = 0)
           \<and> (\<forall>i < length fc. \<forall>j < length fc.
                 max_train_idx (fc ! i) - min_train_idx (fc ! i) + 1
                 = max_train_idx (fc ! j) - min_train_idx (fc ! j) + 1)
           \<and> (\<forall>i. Suc i < length fc \<longrightarrow>
                 min_train_idx (fc ! Suc i) = min_train_idx (fc ! i) + H)"
proof -
  let ?N = "int (length ts)"
  obtain fe where fe: "generate_folds ts K H expand_mode = Inr fe" "length fe = nat K"
    and ie: "\<And>i. i < nat K \<Longrightarrow> min_train_idx (fe ! i) = 0"
    using generate_folds_nth[OF assms(2,3), of expand_mode] by auto
  obtain fc where fc: "generate_folds ts K H constant_mode = Inr fc" "length fc = nat K"
    and ic: "\<And>i. i < nat K \<Longrightarrow> min_train_idx (fc ! i) = int i * H
                 \<and> max_train_idx (fc ! i) = ?N - H * (K - int i) - 1"
    using generate_folds_nth[OF assms(2,3), of constant_mode] by auto
  have len: "max_train_idx (fc ! i) - min_train_idx (fc ! i) + 1 = ?N - K * H" if "i < nat K" for i
    using ic[OF that] by (simp add: algebra_simps)
  have same: "\<forall>i < length fc. \<forall>j < length fc.
                 max_train_idx (fc ! i) - min_train_idx (fc ! i) + 1
                 = max_train_idx (fc ! j) - min_train_idx (fc ! j) + 1"
    using len fc(2) by simp
  have step: "\<forall>i. Suc i < length fc \<longrightarrow> min_train_idx (fc ! Suc i) = min_train_idx (fc ! i) + H"
  proof (intro allI impI)
    fix i assume "Suc i < length fc"
    then have "Suc i < nat K" "i < nat K" using fc(2) by auto
    then show "min_train_idx (fc ! Suc i) = min_train_idx (fc ! i) + H"
      using ic[of i] ic[of "Suc i"] by (simp add: algebra_simps)
  qed
  have e0: "\<forall>i < length fe. min_train_idx (fe ! i) = 0" using ie fe(2) by simp
  show ?thesis
    apply (rule exI[of _ fe])
    apply (rule exI[of _ fc])
    apply (intro conjI)
          apply (rule fe(1))
         apply (rule fe(2))
        apply (rule fc(1))
       apply (rule fc(2))
      apply (rule e0)
     apply (rule same)
    apply (rule step)
    done
qed

theorem planner_train_windows_witness:
  "(1::int) \<le> 3 \<and> (1::int) \<le> 2 \<and> (3::int) * 2 \<le> int (length [0, 1, 2, 3, 4, 5, 6, 7, 8, 9 :: int])
   \<and> (\<exists>fe fc. generate_folds [0, 1, 2, 3, 4, 5, 6, 7, 8, 9 :: int] 3 2 expand_mode = Inr fe
           \<and> length fe = nat 3
           \<and> generate_folds [0, 1, 2, 3, 4, 5, 6, 7, 8, 9 :: int] 3 2 constant_mode = Inr fc
           \<and> length fc = nat 3
           \<and> (\<forall>i < length fe. min_train_idx (fe ! i) = 0)
           \<and> (\<forall>i < length fc. \<forall>j < length fc.
                 max_train_idx (fc ! i) - min_train_idx (fc ! i) + 1
                 = max_train_idx (fc ! j) - min_train_idx (fc ! j) + 1)
           \<and> (\<forall>i. Suc i < length fc \<longrightarrow>
                 min_train_idx (fc ! Suc i) = min_train_idx (fc ! i) + 2))"
  using planner_train_windows[of 3 2 "[0, 1, 2, 3, 4, 5, 6, 7, 8, 9 :: int]"]
  by simp

subsection \<open>Leakage between train and test ranges\<close>

text \<open>
  Claim C1, as stated, fails. On the axis of ten points with three folds of horizon two,
  in mode \<open>expand\<close>, the second fold trains on positions 0..5, which contain the first
  fold's test range 4..5.
\<close>

theorem train_overlaps_earlier_test_counterexample:
  "(1::int) \<le> 3 \<and> (1::int) \<le> 2 \<and> (3::int) * 2 \<le> int (length [0, 1, 2, 3, 4, 5, 6, 7, 8, 9 :: int])
   \<and> (\<exists>fs. generate_folds [0, 1, 2, 3, 4, 5, 6, 7, 8, 9 :: int] 3 2 expand_mode = Inr fs
          \<and> train_range (fs ! 1) = (0, 5) \<and> test_range (fs ! 0) = (4, 5)
          \<and> ranges_overlap (train_range (fs ! 1)) (test_range (fs ! 0)))"
  by (simp add: generate_folds_def range_down_def fold_ranges_def getitem_def upt_rec
      ranges_overlap_def train_range_def test_range_def)

text \<open>
  Claim C1, amended. For \<open>K \<ge> 1\<close>, \<open>H \<ge> 1\<close> and \<open>N \<ge> K * H\<close>, under either mode, the
  train index range of a fold overlaps neither its own test index range nor the test
  index range of any later fold; and in mode \<open>expand\<close> the train index range of every fold
  overlaps the test index range of every earlier fold.
\<close>

theorem train_disjoint_from_own_and_later_tests:
  fixes ts :: "'t list"
  assumes "1 \<le> K" "1 \<le> H" "K * H \<le> int (length ts)"
  shows "\<exists>fs. generate_folds ts K H mode = Inr fs \<and> length fs = nat K
           \<and> (\<forall>j < length fs. \<forall>i \<le> j.
                 \<not> ranges_overlap (train_range (fs ! i)) (test_range (fs ! j)))
           \<and> (mode = expand_mode \<longrightarrow>
                (\<forall>i < length fs. \<forall>j < i.
                   ranges_overlap (train_range (fs ! i)) (test_range (fs ! j))))"
proof -
  let ?N = "int (length ts)"
  obtain fs where fs: "generate_folds ts K H mode = Inr fs" "length fs = nat K"
    and idx: "\<And>i. i < nat K \<Longrightarrow>
                 min_train_idx (fs ! i) = int i * H * constant_history_length mode
               \<and> max_train_idx (fs ! i) = ?N - H * (K - int i) - 1
               \<and> min_test_idx (fs ! i) = ?N - H * (K - int i)
               \<and> max_test_idx (fs ! i) = ?N - H * (K - int i) - 1 + H"
    using generate_folds_nth[OF assms(2,3), of mode] by blast
  have later: "\<forall>j < length fs. \<forall>i \<le> j.
          \<not> ranges_overlap (train_range (fs ! i)) (test_range (fs ! j))"
  proof (intro allI impI)
    fix j i assume ji: "j < length fs" "i \<le> j"
    have "H * int i \<le> H * int j" using ji(2) assms(2) by (intro mult_left_mono) auto
    then have "max_train_idx (fs ! i) < min_test_idx (fs ! j)"
      using idx[of i] idx[of j] ji fs(2) by (simp add: algebra_simps)
    then show "\<not> ranges_overlap (train_range (fs ! i)) (test_range (fs ! j))"
      by (simp add: ranges_overlap_def train_range_def test_range_def)
  qed
  have earlier: "mode = expand_mode \<longrightarrow>
                (\<forall>i < length fs. \<forall>j < i.
                   ranges_overlap (train_range (fs ! i)) (test_range (fs ! j)))"
  proof (intro allI impI)
    fix i j assume m: "mode = expand_mode" and ij: "i < length fs" "j < i"
    have i: "i < nat K" and j: "j < nat K" using ij fs(2) by simp_all
    have o: "1 \<le> K - int j" "K - int j \<le> K" using j by auto
    have lo: "H * (K - int j) \<le> ?N" by (rule offset_bounds(2)[OF assms(2) o assms(3)])
    have "int j + 1 \<le> int i" using ij(2) by simp
    then have "H * (int j + 1) \<le> H * int i" using assms(2) by (intro mult_left_mono) auto
    then have st: "H * (K - int i) + H \<le> H * (K - int j)" by (simp add: algebra_simps)
    have a: "min_train_idx (fs ! i) = 0" using idx[OF i] m by simp
    have b: "max_train_idx (fs ! i) = ?N - H * (K - int i) - 1" using idx[OF i] by simp
    have c: "min_test_idx (fs ! j) = ?N - H * (K - int j)" using idx[OF j] by simp
    have d: "max_test_idx (fs ! j) = ?N - H * (K - int j) - 1 + H" using idx[OF j] by simp
    have "0 \<le> min_test_idx (fs ! j)" using c lo by linarith
    moreover have "min_test_idx (fs ! j) \<le> max_train_idx (fs ! i)" using b c st assms(2) by linarith
    moreover have "min_test_idx (fs ! j) \<le> max_test_idx (fs ! j)" using c d assms(2) by linarith
    ultimately show "ranges_overlap (train_range (fs ! i)) (test_range (fs ! j))"
      using a by (simp add: ranges_overlap_def train_range_def test_range_def)
  qed
  show ?thesis
    apply (rule exI[of _ fs])
    apply (intro conjI)
       apply (rule fs(1))
      apply (rule fs(2))
     apply (rule later)
    apply (rule earlier)
    done
qed

theorem train_disjoint_from_own_and_later_tests_witness:
  "(1::int) \<le> 3 \<and> (1::int) \<le> 2 \<and> (3::int) * 2 \<le> int (length [0, 1, 2, 3, 4, 5, 6, 7, 8, 9 :: int])
   \<and> (\<exists>fs. generate_folds [0, 1, 2, 3, 4, 5, 6, 7, 8, 9 :: int] 3 2 expand_mode = Inr fs
           \<and> length fs = nat 3
           \<and> (\<forall>j < length fs. \<forall>i \<le> j.
                 \<not> ranges_overlap (train_range (fs ! i)) (test_range (fs ! j)))
           \<and> (\<forall>i < length fs. \<forall>j < i.
                   ranges_overlap (train_range (fs ! i)) (test_range (fs ! j))))"
  using train_disjoint_from_own_and_later_tests[of 3 2 "[0, 1, 2, 3, 4, 5, 6, 7, 8, 9 :: int]" expand_mode]
  by simp

subsection \<open>The train range at the minimal accepted history\<close>

text \<open>
  At \<open>N = K * H\<close> the first fold's train index range is 0..-1, under either mode.
\<close>

lemma first_train_range_at_minimal_history:
  fixes ts :: "'t list"
  assumes "1 \<le> K" "1 \<le> H" "int (length ts) = K * H"
  shows "\<exists>fs. generate_folds ts K H mode = Inr fs \<and> train_range (fs ! 0) = (0, - 1)"
proof -
  have le: "K * H \<le> int (length ts)" using assms(3) by simp
  obtain fs where fs: "generate_folds ts K H mode = Inr fs"
    and idx: "\<And>i. i < nat K \<Longrightarrow>
                 min_train_idx (fs ! i) = int i * H * constant_history_length mode
               \<and> max_train_idx (fs ! i) = int (length ts) - H * (K - int i) - 1"
    using generate_folds_nth[OF assms(2) le, of mode] by blast
  have "0 < nat K" using assms(1) by simp
  from idx[OF this] have "min_train_idx (fs ! 0) = 0" "max_train_idx (fs ! 0) = - 1"
    using assms(3) by (simp_all add: mult.commute)
  then show ?thesis using fs by (auto simp: train_range_def)
qed

text \<open>
  Claim C2 at \<open>N = K * H\<close>: an axis of two points, one fold, horizon two. The loop computes
  \<open>max_train_idx = -1\<close>, below \<open>min_train_idx = 0\<close> and outside 0..N-1;
  \<open>timestamps[-1]\<close> then reads the last timestamp, so the train window handed on runs
  from the first to the last timestamp and contains the whole test window.
\<close>

theorem empty_train_range_at_minimal_history:
  "(1::int) \<le> 1 \<and> (1::int) \<le> 2 \<and> int (length [0, 1 :: int]) \<ge> 2 * 1
   \<and> generate_folds [0, 1 :: int] 1 2 expand_mode =
       Inr [\<lparr>min_train_idx = 0, max_train_idx = - 1, min_test_idx = 0, max_test_idx = 1,
              min_train = 0, max_train = 1, min_test = 0, max_test = 1\<rparr>]"
  by (simp add: generate_folds_def range_down_def fold_ranges_def getitem_def upt_rec)

section \<open>Properties of the interval construction\<close>

lemma build_intervals_eq:
  "build_intervals cps = zip (None # map Some (sort cps)) (map Some (sort cps) @ [None])"
  by (simp add: build_intervals_def butlast_append)

lemma adjacent_pair_in_intervals:
  "(Some p, Some q) \<in> set (zip (None # map Some s) (map Some s @ [None]))
   \<longleftrightarrow> (\<exists>k. Suc k < length s \<and> s ! k = p \<and> s ! Suc k = q)"
proof
  assume "(Some p, Some q) \<in> set (zip (None # map Some s) (map Some s @ [None]))"
  then obtain i where i: "(None # map Some s) ! i = Some p" "(map Some s @ [None]) ! i = Some q"
      "i < Suc (length s)"
    by (auto simp: in_set_zip)
  from i(1) obtain k where k: "i = Suc k" by (cases i) auto
  with i(3) have kl: "k < length s" by simp
  have "Suc k < length s"
  proof (rule ccontr)
    assume "\<not> Suc k < length s"
    then have "Suc k = length s" using kl by simp
    then have "(map Some s @ [None]) ! i = None" using k by (simp add: nth_append)
    then show False using i(2) by simp
  qed
  moreover have "s ! k = p" using i(1) k kl by simp
  moreover have "s ! Suc k = q" using i(2) k \<open>Suc k < length s\<close> by (simp add: nth_append)
  ultimately show "\<exists>k. Suc k < length s \<and> s ! k = p \<and> s ! Suc k = q" by blast
next
  assume "\<exists>k. Suc k < length s \<and> s ! k = p \<and> s ! Suc k = q"
  then obtain k where k: "Suc k < length s" "s ! k = p" "s ! Suc k = q" by blast
  have "(None # map Some s) ! Suc k = Some p" using k by simp
  moreover have "(map Some s @ [None]) ! Suc k = Some q" using k by (simp add: nth_append)
  ultimately show "(Some p, Some q) \<in> set (zip (None # map Some s) (map Some s @ [None]))"
    using k(1) by (auto simp: in_set_zip intro!: exI[of _ "Suc k"])
qed

lemma sorted_adjacent_equal_iff:
  fixes s :: "'a::linorder list"
  assumes "sorted s"
  shows "(\<exists>k. Suc k < length s \<and> s ! k = s ! Suc k) \<longleftrightarrow> \<not> distinct s"
proof
  assume "\<exists>k. Suc k < length s \<and> s ! k = s ! Suc k"
  then obtain k where k: "Suc k < length s" "s ! k = s ! Suc k" by blast
  have "k < length s" "k \<noteq> Suc k" using k(1) by auto
  then show "\<not> distinct s" using k nth_eq_iff_index_eq[of s k "Suc k"] by auto
next
  assume "\<not> distinct s"
  then obtain i j where ij: "i < j" "j < length s" "s ! i = s ! j"
    by (metis distinct_conv_nth linorder_neqE_nat)
  have "s ! i \<le> s ! Suc i" using assms ij by (intro sorted_nth_mono) auto
  moreover have "s ! Suc i \<le> s ! j" using assms ij by (intro sorted_nth_mono) auto
  ultimately have "s ! i = s ! Suc i" using ij(3) by simp
  moreover have "Suc i < length s" using ij by simp
  ultimately show "\<exists>k. Suc k < length s \<and> s ! k = s ! Suc k" by blast
qed

text \<open>The worked example: boundaries 5, 2, 8.\<close>

lemma build_intervals_spec_example:
  "build_intervals [5, 2, 8 :: int] = [(None, Some 2), (Some 2, Some 5), (Some 5, Some 8), (Some 8, None)]"
  by (simp add: build_intervals_def)

text \<open>
  Claim C3, as stated, fails: the boundaries are sorted, never deduplicated. For the
  boundaries 2, 2 the result contains the interval from 2 to 2.
\<close>

theorem intervals_duplicate_counterexample:
  "build_intervals [2, 2 :: int] = [(None, Some 2), (Some 2, Some 2), (Some 2, None)]
   \<and> (Some 2, Some 2) \<in> set (build_intervals [2, 2 :: int])"
  by (simp add: build_intervals_def)

text \<open>
  Claim C3, amended. For every list of boundary points the construction sorts the
  boundaries and pairs each with its successor without removing duplicates: it returns
  one interval more than there are points, and the result contains a zero-length
  interval (left boundary equal to right boundary) exactly when the input contains a
  duplicate point. For duplicate-free input there is none.
\<close>

theorem intervals_zero_length_iff_duplicate:
  fixes change_points :: "'a::linorder list"
  shows "length (build_intervals change_points) = length change_points + 1
       \<and> ((\<exists>p. (Some p, Some p) \<in> set (build_intervals change_points))
            \<longleftrightarrow> \<not> distinct change_points)"
proof -
  have "(\<exists>p. (Some p, Some p) \<in> set (build_intervals change_points))
        \<longleftrightarrow> (\<exists>k. Suc k < length (sort change_points)
                  \<and> sort change_points ! k = sort change_points ! Suc k)"
    unfolding build_intervals_eq adjacent_pair_in_intervals by auto
  also have "\<dots> \<longleftrightarrow> \<not> distinct (sort change_points)"
    by (rule sorted_adjacent_equal_iff) simp
  finally show ?thesis by (simp add: build_intervals_eq)
qed

section \<open>Properties of the constructor\<close>

lemma ascii_lower_char_idem: "ascii_lower_char (ascii_lower_char c) = ascii_lower_char c"
proof (cases "65 \<le> (of_char c :: nat) \<and> (of_char c :: nat) \<le> 90")
  case True
  then have "(of_char (char_of (of_char c + 32 :: nat)) :: nat) = of_char c + 32"
    by simp
  then show ?thesis using True by (simp add: ascii_lower_char_def Let_def)
next
  case False
  then show ?thesis by (auto simp: ascii_lower_char_def Let_def)
qed

lemma ascii_lower_idem: "ascii_lower (ascii_lower s) = ascii_lower s"
  by (simp add: ascii_lower_def ascii_lower_char_idem)

text \<open>
  Claim C10. Let \<open>str_lower\<close> be Python's \<open>str.lower\<close>, and let lower-casing the
  lower-cased \<open>mode\<close> change nothing (a lower-cased string is its own lower-casing;
  constructing with the lower-cased name lower-cases it once more). Then constructing with
  \<open>mode\<close> gives the same result, the same object or the same exception, as constructing
  with \<open>mode\<close> lower-cased. A casing of \<open>expand\<close> (a string whose lower-casing is
  \<open>expand\<close>) behaves as \<open>expand\<close> itself and, when the checks of the fold count and of
  the metrics pass, constructs the object with the expanding policy and
  \<open>_constant_history_length = 0\<close>; a casing of \<open>constant\<close> behaves as \<open>constant\<close> and
  constructs the object with the constant policy and \<open>_constant_history_length = 1\<close>.
  Any other string makes the construction fail: with the KeyError of the policy lookup,
  carrying the lower-cased name, whenever the checks that come first pass.
\<close>

theorem init_mode_case_insensitive:
  assumes "str_lower (str_lower mode) = str_lower mode"
  shows "init str_lower model horizon metrics n_folds mode n_jobs
           = init str_lower model horizon metrics n_folds (str_lower mode) n_jobs
   \<and> (str_lower mode = ''expand'' \<longrightarrow>
        init str_lower model horizon metrics n_folds mode n_jobs
          = init str_lower model horizon metrics n_folds ''expand'' n_jobs
        \<and> (1 \<le> n_folds \<and> metrics \<noteq> [] \<and> check_metrics metrics = Inr () \<longrightarrow>
             init str_lower model horizon metrics n_folds mode n_jobs
               = Inr \<lparr>cv_model = model, cv_horizon = horizon, cv_n_jobs = n_jobs,
                      cv_n_folds = n_folds, cv_metrics = metrics, cv_mode = expand_mode,
                      cv_constant_history_length = 0,
                      cv_fold_column = ''fold_number'', cv_folds = []\<rparr>))
   \<and> (str_lower mode = ''constant'' \<longrightarrow>
        init str_lower model horizon metrics n_folds mode n_jobs
          = init str_lower model horizon metrics n_folds ''constant'' n_jobs
        \<and> (1 \<le> n_folds \<and> metrics \<noteq> [] \<and> check_metrics metrics = Inr () \<longrightarrow>
             init str_lower model horizon metrics n_folds mode n_jobs
               = Inr \<lparr>cv_model = model, cv_horizon = horizon, cv_n_jobs = n_jobs,
                      cv_n_folds = n_folds, cv_metrics = metrics, cv_mode = constant_mode,
                      cv_constant_history_length = 1,
                      cv_fold_column = ''fold_number'', cv_folds = []\<rparr>))
   \<and> (str_lower mode \<noteq> ''expand'' \<and> str_lower mode \<noteq> ''constant'' \<longrightarrow>
        (\<exists>e. init str_lower model horizon metrics n_folds mode n_jobs = Inl e)
        \<and> (1 \<le> n_folds \<and> metrics \<noteq> [] \<and> check_metrics metrics = Inr () \<longrightarrow>
             init str_lower model horizon metrics n_folds mode n_jobs
               = Inl (KeyError (str_lower mode))))"
proof -
  let ?obj = "\<lambda>m c. \<lparr>cv_model = model, cv_horizon = horizon, cv_n_jobs = n_jobs,
                      cv_n_folds = n_folds, cv_metrics = metrics, cv_mode = m,
                      cv_constant_history_length = c,
                      cv_fold_column = ''fold_number'', cv_folds = []\<rparr>"
  have a: "init str_lower model horizon metrics n_folds mode n_jobs
           = init str_lower model horizon metrics n_folds (str_lower mode) n_jobs"
    by (simp only: init_def assms)
  have b1: "init str_lower model horizon metrics n_folds mode n_jobs
          = init str_lower model horizon metrics n_folds ''expand'' n_jobs"
    if "str_lower mode = ''expand''"
    using a that by simp
  have b2: "init str_lower model horizon metrics n_folds mode n_jobs = Inr (?obj expand_mode 0)"
    if "str_lower mode = ''expand''" "1 \<le> n_folds \<and> metrics \<noteq> [] \<and> check_metrics metrics = Inr ()"
    using that by (simp add: init_def CrossValidationMode_getitem_def)
  have c1: "init str_lower model horizon metrics n_folds mode n_jobs
          = init str_lower model horizon metrics n_folds ''constant'' n_jobs"
    if "str_lower mode = ''constant''"
    using a that by simp
  have c2: "init str_lower model horizon metrics n_folds mode n_jobs = Inr (?obj constant_mode 1)"
    if "str_lower mode = ''constant''" "1 \<le> n_folds \<and> metrics \<noteq> [] \<and> check_metrics metrics = Inr ()"
    using that by (simp add: init_def CrossValidationMode_getitem_def)
  have d1: "\<exists>e. init str_lower model horizon metrics n_folds mode n_jobs = Inl e"
    if "str_lower mode \<noteq> ''expand'' \<and> str_lower mode \<noteq> ''constant''"
    using that by (auto simp: init_def CrossValidationMode_getitem_def split: sum.splits)
  have d2: "init str_lower model horizon metrics n_folds mode n_jobs = Inl (KeyError (str_lower mode))"
    if "str_lower mode \<noteq> ''expand'' \<and> str_lower mode \<noteq> ''constant''"
      "1 \<le> n_folds \<and> metrics \<noteq> [] \<and> check_metrics metrics = Inr ()"
    using that by (simp add: init_def CrossValidationMode_getitem_def)
  show ?thesis
    apply (intro conjI impI)
          apply (rule a)
         apply (erule b1)
        apply (erule (1) b2)
       apply (erule c1)
      apply (erule (1) c2)
     apply (erule d1)
    apply (erule (1) d2)
    done
qed

theorem init_mode_case_insensitive_witness:
  "ascii_lower (ascii_lower ''EXPAND'') = ascii_lower ''EXPAND''
   \<and> ascii_lower ''EXPAND'' = ''expand''
   \<and> ascii_lower ''Constant'' = ''constant''
   \<and> ascii_lower ''Rolling'' \<noteq> ''expand'' \<and> ascii_lower ''Rolling'' \<noteq> ''constant''
   \<and> (1::int) \<le> 3 \<and> [demo_metric] \<noteq> [] \<and> check_metrics [demo_metric] = Inr ()
   \<and> init ascii_lower () 1 [demo_metric] 3 ''EXPAND'' 1
       = init ascii_lower () 1 [demo_metric] 3 ''expand'' 1
   \<and> init ascii_lower () 1 [demo_metric] 3 ''EXPAND'' 1
       = Inr \<lparr>cv_model = (), cv_horizon = 1, cv_n_jobs = 1, cv_n_folds = 3,
               cv_metrics = [demo_metric], cv_mode = expand_mode,
               cv_constant_history_length = 0,
               cv_fold_column = ''fold_number'', cv_folds = []\<rparr>
   \<and> init ascii_lower () 1 [demo_metric] 3 ''Constant'' 1
       = Inr \<lparr>cv_model = (), cv_horizon = 1, cv_n_jobs = 1, cv_n_folds = 3,
               cv_metrics = [demo_metric], cv_mode = constant_mode,
               cv_constant_history_length = 1,
               cv_fold_column = ''fold_number'', cv_folds = []\<rparr>
   \<and> init ascii_lower () 1 [demo_metric] 3 ''Rolling'' 1 = Inl (KeyError ''rolling'')"
proof -
  have l: "ascii_lower ''Rolling'' = ''rolling''" "ascii_lower ''EXPAND'' = ''expand''"
    "ascii_lower ''Constant'' = ''constant''"
    by code_simp+
  have i: "ascii_lower (ascii_lower s) = ascii_lower s" for s
    by (rule ascii_lower_idem)
  have h: "ascii_lower ''Rolling'' \<noteq> ''expand'' \<and> ascii_lower ''Rolling'' \<noteq> ''constant''"
    using l(1) by simp
  have g: "(1::int) \<le> 3 \<and> [demo_metric] \<noteq> [] \<and> check_metrics [demo_metric] = Inr ()"
    by (simp add: demo_metric_def)
  note te = init_mode_case_insensitive[OF i[of "''EXPAND''"], of "()" 1 "[demo_metric]" 3 1]
  note tc = init_mode_case_insensitive[OF i[of "''Constant''"], of "()" 1 "[demo_metric]" 3 1]
  note tr = init_mode_case_insensitive[OF i[of "''Rolling''"], of "()" 1 "[demo_metric]" 3 1]
  have e1: "init ascii_lower () 1 [demo_metric] 3 ''EXPAND'' 1
              = init ascii_lower () 1 [demo_metric] 3 ''expand'' 1"
    using te[THEN conjunct2, THEN conjunct1, rule_format, OF l(2), THEN conjunct1] .
  have e2: "init ascii_lower () 1 [demo_metric] 3 ''EXPAND'' 1
       = Inr \<lparr>cv_model = (), cv_horizon = 1, cv_n_jobs = 1, cv_n_folds = 3,
               cv_metrics = [demo_metric], cv_mode = expand_mode,
               cv_constant_history_length = 0,
               cv_fold_column = ''fold_number'', cv_folds = []\<rparr>"
    using te[THEN conjunct2, THEN conjunct1, rule_format, OF l(2), THEN conjunct2, rule_format, OF g] .
  have c2: "init ascii_lower () 1 [demo_metric] 3 ''Constant'' 1
       = Inr \<lparr>cv_model = (), cv_horizon = 1, cv_n_jobs = 1, cv_n_folds = 3,
               cv_metrics = [demo_metric], cv_mode = constant_mode,
               cv_constant_history_length = 1,
               cv_fold_column = ''fold_number'', cv_folds = []\<rparr>"
    using tc[THEN conjunct2, THEN conjunct2, THEN conjunct1, rule_format, OF l(3), THEN conjunct2, rule_format, OF g] .
  have r2: "init ascii_lower () 1 [demo_metric] 3 ''Rolling'' 1 = Inl (KeyError (ascii_lower ''Rolling''))"
    using tr[THEN conjunct2, THEN conjunct2, THEN conjunct2, rule_format, OF h, THEN conjunct2, rule_format, OF g] .
  have r3: "init ascii_lower () 1 [demo_metric] 3 ''Rolling'' 1 = Inl (KeyError ''rolling'')"
    using r2 by (simp only: l(1))
  show ?thesis
    apply (intro conjI)
    apply (rule i)
    apply (rule l(2))
    apply (rule l(3))
    apply (rule h[THEN conjunct1])
    apply (rule h[THEN conjunct2])
    apply (rule g[THEN conjunct1])
    apply (rule g[THEN conjunct2, THEN conjunct1])
    apply (rule g[THEN conjunct2, THEN conjunct2])
    apply (rule e1)
    apply (rule e2)
    apply (rule c2)
    apply (rule r3)
    done
qed

section \<open>Properties of \<open>backtest\<close>\<close>

subsection \<open>Validation of the history\<close>

lemma list_ex_isna: "list_ex isna xs \<longleftrightarrow> NaN \<in> set xs"
  by (auto simp: list_ex_iff isna_def)

lemma validate_segments_passes:
  assumes "\<forall>seg \<in> set L. map_of (df_columns ts) (seg, ''target'') \<noteq> None"
    and "\<forall>seg \<in> set L. \<not> has_missing_tail ts n seg"
  shows "validate_segments ts n L = Inr ()"
  using assms
  by (induction L) (auto simp: getitem_target_def has_missing_tail_def list_ex_isna split: option.splits)

lemma validate_segments_raises:
  assumes "\<forall>seg \<in> set L. map_of (df_columns ts) (seg, ''target'') \<noteq> None"
    and "\<exists>seg \<in> set L. has_missing_tail ts n seg"
  shows "\<exists>seg \<in> set L. has_missing_tail ts n seg
           \<and> validate_segments ts n L = Inl (ValueError_series seg)"
  using assms
proof (induction L)
  case Nil
  then show ?case by simp
next
  case (Cons s L)
  obtain col where col: "map_of (df_columns ts) (s, ''target'') = Some col"
    using Cons.prems(1) by auto
  show ?case
  proof (cases "NaN \<in> set (tail n col)")
    case True
    then have "has_missing_tail ts n s" "validate_segments ts n (s # L) = Inl (ValueError_series s)"
      using col by (simp_all add: has_missing_tail_def getitem_target_def list_ex_isna)
    then show ?thesis by auto
  next
    case False
    then have ns: "\<not> has_missing_tail ts n s" using col by (simp add: has_missing_tail_def)
    then have "\<exists>seg \<in> set L. has_missing_tail ts n seg" using Cons.prems(2) by auto
    then obtain seg where seg: "seg \<in> set L" "has_missing_tail ts n seg"
        "validate_segments ts n L = Inl (ValueError_series seg)"
      using Cons.IH Cons.prems(1) by auto
    have "validate_segments ts n (s # L) = validate_segments ts n L"
      using col False by (simp add: getitem_target_def list_ex_isna)
    then show ?thesis using seg by auto
  qed
qed

lemma set_segments: "set (segments ts) = set (segment_level ts)"
  by (simp add: segments_def unique_def)
lemma demo_segments: "segments demo_ts = [''a'', ''b'']"
  by (simp add: segments_def segment_level_def unique_def demo_ts_def)

text \<open>
  Claim C8. Suppose iterating the set of segment names yields exactly the segments of
  the dataset, and every segment has a target column. If the target series of some
  segment has a missing value among its last \<open>horizon * n_folds\<close> points, then
  \<open>backtest\<close> raises the ValueError that names a segment with such a missing value (the
  first one the iteration meets), no call of the model's fit or forecast or of a metric
  has been made, and the object is unchanged. If no segment has such a missing value,
  the validation passes.
\<close>

theorem missing_tail_stops_backtest:
  assumes "set (set_iter env (segment_level ts)) = set (segment_level ts)"
    and "\<forall>seg \<in> set (segments ts). map_of (df_columns ts) (seg, ''target'') \<noteq> None"
  shows "((\<exists>seg \<in> set (segments ts).
              has_missing_tail ts (cv_horizon self * cv_n_folds self) seg) \<longrightarrow>
            (\<exists>seg \<in> set (segments ts).
                has_missing_tail ts (cv_horizon self * cv_n_folds self) seg
              \<and> result (backtest env self ts) = Inl (ValueError_series seg))
            \<and> calls (backtest env self ts) = []
            \<and> self_after (backtest env self ts) = self)
       \<and> ((\<forall>seg \<in> set (segments ts).
              \<not> has_missing_tail ts (cv_horizon self * cv_n_folds self) seg) \<longrightarrow>
            validate_features env self ts = Inr ())"
proof -
  let ?n = "cv_horizon self * cv_n_folds self"
  let ?L = "set_iter env (segment_level ts)"
  have L: "set ?L = set (segments ts)" using assms(1) by (simp add: set_segments)
  have tg: "\<forall>seg \<in> set ?L. map_of (df_columns ts) (seg, ''target'') \<noteq> None"
    using assms(2) L by simp
  have vf: "validate_features env self ts = validate_segments ts ?n ?L"
    by (simp add: validate_features_def)
  have pass: "(\<forall>seg \<in> set (segments ts). \<not> has_missing_tail ts ?n seg) \<longrightarrow>
            validate_features env self ts = Inr ()"
    using validate_segments_passes[OF tg] L vf by simp
  have stop: "(\<exists>seg \<in> set (segments ts). has_missing_tail ts ?n seg) \<longrightarrow>
            (\<exists>seg \<in> set (segments ts). has_missing_tail ts ?n seg
              \<and> result (backtest env self ts) = Inl (ValueError_series seg))
            \<and> calls (backtest env self ts) = []
            \<and> self_after (backtest env self ts) = self"
  proof
    assume "\<exists>seg \<in> set (segments ts). has_missing_tail ts ?n seg"
    then have "\<exists>seg \<in> set ?L. has_missing_tail ts ?n seg" using L by simp
    then obtain seg where seg: "seg \<in> set ?L" "has_missing_tail ts ?n seg"
        "validate_segments ts ?n ?L = Inl (ValueError_series seg)"
      using validate_segments_raises[OF tg] by blast
    then have v: "validate_features env self ts = Inl (ValueError_series seg)"
      using vf by simp
    have "result (backtest env self ts) = Inl (ValueError_series seg)"
      "calls (backtest env self ts) = []" "self_after (backtest env self ts) = self"
      using v by (simp_all add: backtest_def)
    then show "(\<exists>seg \<in> set (segments ts). has_missing_tail ts ?n seg
              \<and> result (backtest env self ts) = Inl (ValueError_series seg))
            \<and> calls (backtest env self ts) = []
            \<and> self_after (backtest env self ts) = self"
      using seg L by auto
  qed
  show ?thesis using pass stop by blast
qed

theorem missing_tail_stops_backtest_witness:
  "set (set_iter demo_env (segment_level demo_ts)) = set (segment_level demo_ts)
   \<and> map_of (df_columns demo_ts) (''a'', ''target'') \<noteq> None
   \<and> map_of (df_columns demo_ts) (''b'', ''target'') \<noteq> None
   \<and> has_missing_tail demo_ts (cv_horizon (demo_cv 4) * cv_n_folds (demo_cv 4)) ''b''
   \<and> \<not> has_missing_tail demo_ts (cv_horizon (demo_cv 4) * cv_n_folds (demo_cv 4)) ''a''
   \<and> result (backtest demo_env (demo_cv 4) demo_ts) = Inl (ValueError_series ''b'')
   \<and> calls (backtest demo_env (demo_cv 4) demo_ts) = []
   \<and> self_after (backtest demo_env (demo_cv 4) demo_ts) = demo_cv 4
   \<and> \<not> has_missing_tail demo_ts (cv_horizon (demo_cv 2) * cv_n_folds (demo_cv 2)) ''a''
   \<and> \<not> has_missing_tail demo_ts (cv_horizon (demo_cv 2) * cv_n_folds (demo_cv 2)) ''b''
   \<and> validate_features demo_env (demo_cv 2) demo_ts = Inr ()"
proof -
  have s: "set (set_iter demo_env (segment_level demo_ts)) = set (segment_level demo_ts)"
    by (simp add: demo_env_def)
  have t: "\<forall>seg \<in> set (segments demo_ts). map_of (df_columns demo_ts) (seg, ''target'') \<noteq> None"
    by (simp add: demo_segments) (simp add: demo_ts_def)
  have m4: "has_missing_tail demo_ts (cv_horizon (demo_cv 4) * cv_n_folds (demo_cv 4)) ''b''"
    "\<not> has_missing_tail demo_ts (cv_horizon (demo_cv 4) * cv_n_folds (demo_cv 4)) ''a''"
    by (simp_all add: has_missing_tail_def demo_ts_def demo_cv_def tail_def)
  have m2: "\<not> has_missing_tail demo_ts (cv_horizon (demo_cv 2) * cv_n_folds (demo_cv 2)) ''a''"
    "\<not> has_missing_tail demo_ts (cv_horizon (demo_cv 2) * cv_n_folds (demo_cv 2)) ''b''"
    by (simp_all add: has_missing_tail_def demo_ts_def demo_cv_def tail_def)
  have e4: "\<exists>seg \<in> set (segments demo_ts).
              has_missing_tail demo_ts (cv_horizon (demo_cv 4) * cv_n_folds (demo_cv 4)) seg"
    using m4(1) by (simp add: demo_segments)
  have a2: "\<forall>seg \<in> set (segments demo_ts).
              \<not> has_missing_tail demo_ts (cv_horizon (demo_cv 2) * cv_n_folds (demo_cv 2)) seg"
    using m2 by (simp add: demo_segments)
  have r4: "(\<exists>seg \<in> set (segments demo_ts).
                has_missing_tail demo_ts (cv_horizon (demo_cv 4) * cv_n_folds (demo_cv 4)) seg
              \<and> result (backtest demo_env (demo_cv 4) demo_ts) = Inl (ValueError_series seg))
            \<and> calls (backtest demo_env (demo_cv 4) demo_ts) = []
            \<and> self_after (backtest demo_env (demo_cv 4) demo_ts) = demo_cv 4"
    using missing_tail_stops_backtest[OF s t, of "demo_cv 4"] e4 by blast
  then have r4': "result (backtest demo_env (demo_cv 4) demo_ts) = Inl (ValueError_series ''b'')"
    using m4(2) by (auto simp: demo_segments)
  have r2: "validate_features demo_env (demo_cv 2) demo_ts = Inr ()"
    using missing_tail_stops_backtest[OF s t, of "demo_cv 2"] a2 by blast
  have t': "map_of (df_columns demo_ts) (''a'', ''target'') \<noteq> None"
    "map_of (df_columns demo_ts) (''b'', ''target'') \<noteq> None"
    by (simp_all add: demo_ts_def)
  show ?thesis using s t' m4 m2 r4 r4' r2 by blast
qed

subsection \<open>A fold that fails\<close>

lemma run_folds_all_ok:
  assumes "run_folds env self ts offs i = (Inr folds, tr)"
    and "k < length offs"
    and "generate_fold_dataframes env self ts (offs ! k) = Inr (train, test, forecast_base)"
  shows "\<exists>fold_i tr'. run_fold env self train test forecast_base (i + k) = (Inr fold_i, tr')"
  using assms
proof (induction offs arbitrary: i k folds tr)
  case Nil
  then show ?case by simp
next
  case (Cons offset rest)
  from Cons.prems(1) obtain tr0 te0 fb0 where g: "generate_fold_dataframes env self ts offset = Inr (tr0, te0, fb0)"
    by (auto split: sum.splits prod.splits)
  from Cons.prems(1) g obtain f0 t0 where r: "run_fold env self tr0 te0 fb0 i = (Inr f0, t0)"
    by (auto split: sum.splits prod.splits)
  from Cons.prems(1) g r obtain fs t1 where rest: "run_folds env self ts rest (Suc i) = (Inr fs, t1)"
    by (auto split: sum.splits prod.splits)
  show ?case
  proof (cases k)
    case 0
    then show ?thesis using Cons.prems(3) g r by simp
  next
    case (Suc k')
    then have "k' < length rest" "generate_fold_dataframes env self ts (rest ! k') = Inr (train, test, forecast_base)"
      using Cons.prems(2,3) by simp_all
    from Cons.IH[OF rest this] show ?thesis using Suc by simp
  qed
qed

text \<open>
  Claim C9. If the computation of some fold raises (fold number k is one of the
  \<open>n_folds\<close> folds, its datasets can be generated, and its fit, forecast or metric
  computation raises), then \<open>backtest\<close> raises and the object, in particular the
  mapping from fold numbers to fold results, is as it was before the call.
\<close>

theorem failing_fold_aborts_backtest:
  assumes "k < nat (cv_n_folds self)"
    and "generate_fold_dataframes env self ts (cv_n_folds self - int k)
           = Inr (train, test, forecast_base)"
    and "fst (run_fold env self train test forecast_base k) = Inl e"
  shows "(\<exists>e'. result (backtest env self ts) = Inl e')
       \<and> self_after (backtest env self ts) = self
       \<and> cv_folds (self_after (backtest env self ts)) = cv_folds self"
proof (cases "validate_features env self ts")
  case (Inl e0)
  then show ?thesis by (simp add: backtest_def)
next
  case (Inr u)
  obtain r tr where rf: "run_folds env self ts (range_down (cv_n_folds self)) 0 = (r, tr)"
    by (cases "run_folds env self ts (range_down (cv_n_folds self)) 0") auto
  show ?thesis
  proof (cases r)
    case (Inl e1)
    then show ?thesis using Inr rf by (simp add: backtest_def)
  next
    case (Inr folds)
    have len: "k < length (range_down (cv_n_folds self))"
      and nth: "range_down (cv_n_folds self) ! k = cv_n_folds self - int k"
      using assms(1) by (simp_all add: range_down_def)
    have "\<exists>fold_i tr'. run_fold env self train test forecast_base (0 + k) = (Inr fold_i, tr')"
      using run_folds_all_ok[OF rf[unfolded Inr] len] assms(2) nth by simp
    then show ?thesis using assms(3) by auto
  qed
qed

theorem failing_fold_aborts_backtest_witness:
  "(1::nat) < nat (cv_n_folds (demo_cv 2))
   \<and> generate_fold_dataframes (demo_env\<lparr>model_fit := (\<lambda>m ts. Inl (CollaboratorError ''fit''))\<rparr>)
        (demo_cv 2) demo_ts (cv_n_folds (demo_cv 2) - int 1) = Inr (demo_ts, demo_ts, demo_ts)
   \<and> fst (run_fold (demo_env\<lparr>model_fit := (\<lambda>m ts. Inl (CollaboratorError ''fit''))\<rparr>)
        (demo_cv 2) demo_ts demo_ts demo_ts 1) = Inl (CollaboratorError ''fit'')
   \<and> (\<exists>e'. result (backtest (demo_env\<lparr>model_fit := (\<lambda>m ts. Inl (CollaboratorError ''fit''))\<rparr>)
              (demo_cv 2) demo_ts) = Inl e')
   \<and> self_after (backtest (demo_env\<lparr>model_fit := (\<lambda>m ts. Inl (CollaboratorError ''fit''))\<rparr>)
              (demo_cv 2) demo_ts) = demo_cv 2
   \<and> cv_folds (self_after (backtest (demo_env\<lparr>model_fit := (\<lambda>m ts. Inl (CollaboratorError ''fit''))\<rparr>)
              (demo_cv 2) demo_ts)) = cv_folds (demo_cv 2)"
proof -
  let ?env = "demo_env\<lparr>model_fit := (\<lambda>m ts. Inl (CollaboratorError ''fit''))\<rparr>"
  have a: "(1::nat) < nat (cv_n_folds (demo_cv 2))" by (simp add: demo_cv_def)
  have b: "generate_fold_dataframes ?env (demo_cv 2) demo_ts (cv_n_folds (demo_cv 2) - int 1)
             = Inr (demo_ts, demo_ts, demo_ts)"
    by (simp add: generate_fold_dataframes_def fold_ranges_def getitem_def demo_cv_def
        demo_env_def demo_ts_def)
  have c: "fst (run_fold ?env (demo_cv 2) demo_ts demo_ts demo_ts 1) = Inl (CollaboratorError ''fit'')"
    by (simp add: run_fold_def demo_env_def)
  show ?thesis
    using a b c failing_fold_aborts_backtest[OF a b c] by blast
qed

subsection \<open>The queries and the stored fold results\<close>

lemma unique_snoc_old: "x \<in> set xs \<Longrightarrow> unique (xs @ [x]) = unique xs"
  by (simp add: unique_def)

lemma set_unique: "set (unique xs) = set xs"
  by (simp add: unique_def)

lemma map_fst_update:
  "map f' (AList.update k v al) = (if k \<in> fst ` set al then map f' al else map f' al @ [f' (k, v)])"
  if "\<And>a b b'. f' (a, b) = f' (a, b')"
  using that by (induction al) (auto simp: image_iff)

lemma segment_level_set_column:
  "segment_level (set_column d (seg, c) v)
     = (if (seg, c) \<in> fst ` set (df_columns d) then segment_level d else segment_level d @ [seg])"
proof -
  have "map (\<lambda>c. fst (fst c)) (AList.update (seg, c) col al)
        = (if (seg, c) \<in> fst ` set al then map (\<lambda>c. fst (fst c)) al
           else map (\<lambda>c. fst (fst c)) al @ [seg])" for col and al :: "((string \<times> string) \<times> cell list) list"
    using map_fst_update[of "\<lambda>c. fst (fst c)" "(seg, c)" col al] by simp
  then show ?thesis by (simp add: segment_level_def set_column_def)
qed

lemma segments_set_column:
  assumes "seg \<in> set (segments d)"
  shows "segments (set_column d (seg, c) v) = segments d"
proof -
  have "seg \<in> set (segment_level d)" using assms by (simp add: segments_def set_unique)
  then show ?thesis
    by (simp add: segments_def segment_level_set_column unique_snoc_old)
qed

lemma df_index_set_column: "df_index (set_column d key v) = df_index d"
  by (simp add: set_column_def)

lemma map_of_set_column:
  "map_of (df_columns (set_column d key v)) key' =
     (if key' = key then Some (replicate (length (df_index d)) v) else map_of (df_columns d) key')"
  by (simp add: set_column_def update_conv')

lemma set_column_same:
  assumes "map_of (df_columns d) key = Some (replicate (length (df_index d)) v)"
  shows "set_column d key v = d"
  using assms by (simp add: set_column_def update_triv)

lemma foldl_set_column_props:
  assumes "set L \<subseteq> set (segments d)"
  shows "segments (foldl (\<lambda>d segment. set_column d (segment, c) v) d L) = segments d
       \<and> df_index (foldl (\<lambda>d segment. set_column d (segment, c) v) d L) = df_index d
       \<and> (\<forall>seg. seg \<in> set L \<or> tagged_for c v d seg
              \<longrightarrow> tagged_for c v (foldl (\<lambda>d segment. set_column d (segment, c) v) d L) seg)"
  using assms
proof (induction L arbitrary: d)
  case Nil
  then show ?case by simp
next
  case (Cons s L)
  let ?d = "set_column d (s, c) v"
  have s: "s \<in> set (segments d)" using Cons.prems by simp
  have seg: "segments ?d = segments d" using s by (rule segments_set_column)
  have idx: "df_index ?d = df_index d" by (rule df_index_set_column)
  have sub: "set L \<subseteq> set (segments ?d)" using Cons.prems seg by simp
  note IH = Cons.IH[OF sub]
  have t: "tagged_for c v ?d seg" if "seg = s \<or> tagged_for c v d seg" for seg
    using that by (auto simp: tagged_for_def map_of_set_column idx)
  show ?case
    using IH seg idx t by auto
qed

lemma foldl_set_column_noop:
  assumes "\<forall>seg \<in> set L. tagged_for c v d seg"
  shows "foldl (\<lambda>d segment. set_column d (segment, c) v) d L = d"
  using assms
  by (induction L) (simp_all add: tagged_for_def set_column_same)

lemma tag_forecast_idem:
  "tag_forecast c i (tag_forecast c i d) = tag_forecast c i d"
proof -
  let ?v = "IntVal (int i)"
  let ?t = "foldl (\<lambda>d segment. set_column d (segment, c) ?v) d (segments d)"
  have p: "segments ?t = segments d" "\<forall>seg \<in> set (segments d). tagged_for c ?v ?t seg"
    using foldl_set_column_props[of "segments d" d c ?v] by auto
  have "foldl (\<lambda>d segment. set_column d (segment, c) ?v) ?t (segments ?t) = ?t"
    using p by (intro foldl_set_column_noop) simp
  then show ?thesis by (simp add: tag_forecast_def)
qed

lemma get_forecasts_loop_snd:
  "snd (get_forecasts_loop c folds stacked) = map (tag_fold c) folds"
  by (induction c folds stacked rule: get_forecasts_loop.induct)
     (auto simp: tag_fold_def Let_def split: prod.splits)

lemma tag_fold_idem: "tag_fold c (tag_fold c p) = tag_fold c p"
  by (simp add: tag_fold_def tag_forecast_idem)

lemma get_forecasts_snd:
  "snd (get_forecasts self) = self\<lparr>cv_folds := map (tag_fold (cv_fold_column self)) (cv_folds self)\<rparr>"
  using get_forecasts_loop_snd[of "cv_fold_column self" "cv_folds self" empty_frame]
  by (auto simp: get_forecasts_def split: prod.splits)

lemma get_forecasts_idem:
  "snd (get_forecasts (snd (get_forecasts self))) = snd (get_forecasts self)"
  by (simp add: get_forecasts_snd tag_fold_idem)

lemma get_metrics_snd: "snd (get_metrics self b) = self"
  by (simp add: get_metrics_def Let_def split: prod.splits)

lemma get_fold_info_snd: "snd (get_fold_info self) = self"
  by (simp add: get_fold_info_def)

lemma backtest_success_state:
  assumes "result (backtest env self ts) = Inr tables"
  shows "\<exists>s. self_after (backtest env self ts) = snd (get_forecasts s)"
proof -
  from assms obtain u where v: "validate_features env self ts = Inr u"
    by (cases "validate_features env self ts") (auto simp: backtest_def)
  obtain r tr where rf: "run_folds env self ts (range_down (cv_n_folds self)) 0 = (r, tr)"
    by (cases "run_folds env self ts (range_down (cv_n_folds self)) 0") auto
  from assms v rf obtain folds where r: "r = Inr folds"
    by (cases r) (auto simp: backtest_def)
  let ?s1 = "self\<lparr>cv_folds := store_folds folds (cv_folds self)\<rparr>"
  obtain m where m: "get_metrics ?s1 False = (m, ?s1)"
    using get_metrics_snd[of ?s1 False] by (cases "get_metrics ?s1 False") auto
  from assms v rf r m obtain mdf where mdf: "m = Inr mdf"
    by (cases m) (auto simp: backtest_def)
  have "self_after (backtest env self ts) = snd (get_fold_info (snd (get_forecasts ?s1)))"
    using v rf r m mdf by (simp add: backtest_def Let_def split: prod.splits)
  then show ?thesis by (auto simp: get_fold_info_snd)
qed

text \<open>
  A call of \<open>backtest\<close> that raises leaves the object as it was, whatever raised; and a
  later call of \<open>backtest\<close>, successful or not, again leaves an object that
  \<open>get_forecasts\<close> does not change.
\<close>

lemma store_folds_empty:
  "store_folds folds stored = [] \<Longrightarrow> folds = [] \<and> stored = []"
  by (induction folds stored rule: store_folds.induct) auto

lemma backtest_failure_keeps_state:
  assumes "result (backtest env self ts) = Inl e"
  shows "self_after (backtest env self ts) = self"
proof (cases "validate_features env self ts")
  case (Inl e0)
  then show ?thesis by (simp add: backtest_def)
next
  case (Inr u)
  obtain r tr where rf: "run_folds env self ts (range_down (cv_n_folds self)) 0 = (r, tr)"
    by (cases "run_folds env self ts (range_down (cv_n_folds self)) 0") auto
  show ?thesis
  proof (cases r)
    case (Inl e1)
    then show ?thesis using Inr rf by (simp add: backtest_def)
  next
    case r: (Inr folds)
    let ?s1 = "self\<lparr>cv_folds := store_folds folds (cv_folds self)\<rparr>"
    obtain m where m: "get_metrics ?s1 False = (m, ?s1)"
      using get_metrics_snd[of ?s1 False] by (cases "get_metrics ?s1 False") auto
    show ?thesis
    proof (cases m)
      case (Inl e2)
      then have "cv_folds ?s1 = []"
        using m by (auto simp: get_metrics_def Let_def split: prod.splits if_splits)
      then have "folds = [] \<and> cv_folds self = []" using store_folds_empty by auto
      then have "?s1 = self" by simp
      then show ?thesis using Inr rf r m Inl by (simp add: backtest_def)
    next
      case (Inr mdf)
      then have "\<exists>t. result (backtest env self ts) = Inr t"
        using \<open>validate_features env self ts = Inr u\<close> rf r m
        by (simp add: backtest_def Let_def split: prod.splits)
      then show ?thesis using assms by simp
    qed
  qed
qed

lemma later_backtest_keeps_fixed_point:
  assumes "snd (get_forecasts s) = s"
  shows "snd (get_forecasts (self_after (backtest env s ts))) = self_after (backtest env s ts)"
proof (cases "result (backtest env s ts)")
  case (Inl e)
  then show ?thesis using backtest_failure_keeps_state[OF Inl] assms by simp
next
  case (Inr tables)
  then obtain s' where "self_after (backtest env s ts) = snd (get_forecasts s')"
    using backtest_success_state by blast
  then show ?thesis by (simp add: get_forecasts_idem)
qed

text \<open>
  \<open>get_forecasts\<close> is not read-only on an arbitrary object: on a stored forecast that
  does not carry its fold number yet it adds the column.
\<close>

lemma get_forecasts_writes_fold_number:
  "snd (get_forecasts ((demo_cv 1)\<lparr>cv_folds :=
         [(0, \<lparr>train_timerange = (None, None), test_timerange = (None, None),
               forecast = demo_ts, fold_metrics = []\<rparr>)]\<rparr>))
   = (demo_cv 1)\<lparr>cv_folds :=
         [(0, \<lparr>train_timerange = (None, None), test_timerange = (None, None),
               forecast = demo_ts\<lparr>df_columns := df_columns demo_ts @
                  [((''a'', ''fold_number''), [IntVal 0, IntVal 0, IntVal 0, IntVal 0]),
                   ((''b'', ''fold_number''), [IntVal 0, IntVal 0, IntVal 0, IntVal 0])]\<rparr>,
               fold_metrics = []\<rparr>)]\<rparr>"
proof -
  have "tag_forecast ''fold_number'' 0 demo_ts
        = demo_ts\<lparr>df_columns := df_columns demo_ts @
                  [((''a'', ''fold_number''), [IntVal 0, IntVal 0, IntVal 0, IntVal 0]),
                   ((''b'', ''fold_number''), [IntVal 0, IntVal 0, IntVal 0, IntVal 0])]\<rparr>"
    unfolding tag_forecast_def demo_segments
    by (simp add: set_column_def demo_ts_def numeral_eq_Suc)
  then show ?thesis
    by (simp add: get_forecasts_snd tag_fold_def demo_cv_def)
qed

text \<open>
  Claim C4. In the state a successful call of \<open>backtest\<close> leaves behind, each of the three
  queries returns the object unchanged: every stored fold result, its forecast included,
  is as before. (\<open>backtest\<close> itself ends with the three queries, so every stored forecast
  already carries its fold number, and writing it again changes nothing.)
\<close>

theorem queries_keep_state_after_backtest:
  assumes "result (backtest env self ts) = Inr tables"
  shows "snd (get_forecasts (self_after (backtest env self ts))) = self_after (backtest env self ts)
       \<and> snd (get_metrics (self_after (backtest env self ts)) aggregate_metrics)
           = self_after (backtest env self ts)
       \<and> snd (get_fold_info (self_after (backtest env self ts))) = self_after (backtest env self ts)"
proof -
  obtain s where "self_after (backtest env self ts) = snd (get_forecasts s)"
    using backtest_success_state[OF assms] by blast
  then show ?thesis
    by (simp add: get_forecasts_idem get_metrics_snd get_fold_info_snd)
qed

theorem queries_keep_state_after_backtest_witness:
  "(\<exists>tables. result (backtest demo_env (demo_cv 2) demo_ts) = Inr tables)
   \<and> snd (get_forecasts (self_after (backtest demo_env (demo_cv 2) demo_ts)))
       = self_after (backtest demo_env (demo_cv 2) demo_ts)
   \<and> snd (get_metrics (self_after (backtest demo_env (demo_cv 2) demo_ts)) True)
       = self_after (backtest demo_env (demo_cv 2) demo_ts)
   \<and> snd (get_fold_info (self_after (backtest demo_env (demo_cv 2) demo_ts)))
       = self_after (backtest demo_env (demo_cv 2) demo_ts)"
proof -
  have "case result (backtest demo_env (demo_cv 2) demo_ts) of Inl e \<Rightarrow> False | Inr t \<Rightarrow> True"
    by code_simp
  then obtain tables where t: "result (backtest demo_env (demo_cv 2) demo_ts) = Inr tables"
    by (cases "result (backtest demo_env (demo_cv 2) demo_ts)") auto
  show ?thesis
    using t queries_keep_state_after_backtest[OF t, of True] by blast
qed

section \<open>Properties of the metrics table\<close>

subsection \<open>The rows of the stored folds\<close>

lemma distinct_unique: "distinct (unique xs)"
  by (simp add: unique_def)

lemma unique_unique_append: "set (unique (xs @ ys)) = set xs \<union> set ys"
  by (auto simp: unique_def)

lemma append_fold_metrics_rows:
  "snd (append_fold_metrics folds acc) = snd acc @ concat (map fold_rows folds)"
  by (induction folds acc rule: append_fold_metrics.induct)
     (simp_all add: fold_rows_def Let_def)

lemma fst_fold_metrics_frame: "fst (fold_metrics_frame i ms) = map fst ms"
  by (simp add: fold_metrics_frame_def)

lemma append_fold_metrics_names:
  "set (fst (append_fold_metrics folds acc))
     = set (fst acc) \<union> (\<Union>p \<in> set folds. fst ` set (fold_metrics (snd p)))"
  by (induction folds acc rule: append_fold_metrics.induct)
     (auto simp: Let_def set_unique fst_fold_metrics_frame)

lemma fold_segments_list:
  "set (unique (concat (map (\<lambda>(name, values). map fst values) ms)))
     = (\<Union>(name, values) \<in> set ms. fst ` set values)"
  by (auto simp: set_unique)

lemma map_of_row_values:
  "map_of (map (\<lambda>(name, values). (name, map_of values s)) ms) name
     = map_option (\<lambda>values. map_of values s) (map_of ms name)"
  by (induction ms) auto

lemma fold_rows_props:
  assumes "r \<in> set (fold_rows (i, f))"
  shows "row_fold_number r = i" "row_segment r \<in> fold_segments f"
    "cell_of r name = metric_value f name (row_segment r)"
proof -
  obtain s where s: "s \<in> set (unique (concat (map (\<lambda>(name, values). map fst values) (fold_metrics f))))"
    and r: "r = \<lparr>row_segment = s, row_fold_number = i,
              row_values = map (\<lambda>(name, values). (name, map_of values s)) (fold_metrics f)\<rparr>"
    using assms by (auto simp: fold_rows_def fold_metrics_frame_def)
  show "row_fold_number r = i" using r by simp
  show "row_segment r \<in> fold_segments f"
    using s r unfolding fold_segments_list by (simp add: fold_segments_def)
  show "cell_of r name = metric_value f name (row_segment r)"
    using r by (simp add: cell_of_def metric_value_def map_of_row_values split: option.splits)
qed

lemma fold_rows_segments:
  "map row_segment (fold_rows (i, f))
     = unique (concat (map (\<lambda>(name, values). map fst values) (fold_metrics f)))"
  by (simp add: fold_rows_def fold_metrics_frame_def comp_def)

lemma set_fold_rows_segments: "row_segment ` set (fold_rows (i, f)) = fold_segments f"
proof -
  have "set (map row_segment (fold_rows (i, f))) = fold_segments f"
    unfolding fold_rows_segments fold_segments_list by (simp add: fold_segments_def)
  then show ?thesis by simp
qed

lemma fold_rows_keys:
  "map row_key (fold_rows (i, f)) = map (\<lambda>s. (s, i)) (map row_segment (fold_rows (i, f)))"
  by (simp add: fold_rows_def fold_metrics_frame_def comp_def row_key_def)

lemma distinct_fold_rows_keys: "distinct (map row_key (fold_rows (i, f)))"
  unfolding fold_rows_keys fold_rows_segments
  by (simp add: distinct_map distinct_unique inj_on_def)

lemma set_all_keys:
  "set (map row_key (concat (map fold_rows folds)))
     = {(s, i). \<exists>f. (i, f) \<in> set folds \<and> s \<in> fold_segments f}"
proof -
  have "set (map row_key (fold_rows (i, f))) = (\<lambda>s. (s, i)) ` fold_segments f" for i f
  proof -
    have "set (map row_key (fold_rows (i, f))) = (\<lambda>s. (s, i)) ` (row_segment ` set (fold_rows (i, f)))"
      unfolding fold_rows_keys by (simp add: image_image)
    then show ?thesis by (simp only: set_fold_rows_segments)
  qed
  then have k: "row_key ` set (fold_rows p) = (\<lambda>s. (s, fst p)) ` fold_segments (snd p)" for p
    by (cases p) simp
  have "set (map row_key (concat (map fold_rows folds)))
      = (\<Union>p \<in> set folds. (\<lambda>s. (s, fst p)) ` fold_segments (snd p))"
    by (simp add: image_UN k)
  also have "\<dots> = {(s, i). \<exists>f. (i, f) \<in> set folds \<and> s \<in> fold_segments f}"
    by force
  finally show ?thesis .
qed

lemma distinct_all_keys:
  assumes "distinct (map fst folds)"
  shows "distinct (map row_key (concat (map fold_rows folds)))"
  using assms
proof (induction folds)
  case Nil
  then show ?case by simp
next
  case (Cons p folds)
  obtain i f where p: "p = (i, f)" by (cases p)
  have d: "distinct (map row_key (fold_rows p))" using p distinct_fold_rows_keys by simp
  have "set (map row_key (fold_rows p)) \<inter> set (map row_key (concat (map fold_rows folds))) = {}"
  proof -
    have a: "snd ` set (map row_key (fold_rows p)) \<subseteq> {i}"
      using p by (auto simp: fold_rows_keys)
    have b: "snd ` set (map row_key (concat (map fold_rows folds))) \<subseteq> fst ` set folds"
      unfolding set_all_keys by force
    have "i \<notin> fst ` set folds" using Cons.prems p by simp
    then show ?thesis using a b by (metis (no_types, lifting) Int_emptyI image_eqI singletonD subsetD)
  qed
  then show ?case using d Cons by simp
qed

subsection \<open>The mean of a group\<close>

lemma map_filter_append: "List.map_filter g (xs @ ys) = List.map_filter g xs @ List.map_filter g ys"
  by (simp add: List.map_filter_def)

lemma mset_map_filter:
  "mset xs = mset ys \<Longrightarrow> mset (List.map_filter g xs) = mset (List.map_filter g ys)"
  by (simp add: List.map_filter_def mset_filter[symmetric] del: mset_filter)
     (metis mset_filter mset_map)

lemma mean_skipna_mset:
  assumes "mset xs = mset ys"
  shows "mean_skipna xs = mean_skipna ys"
proof -
  have m: "mset (List.map_filter id xs) = mset (List.map_filter id ys)"
    using assms by (rule mset_map_filter)
  then have "sum_list (List.map_filter id xs) = sum_list (List.map_filter id ys)"
    by (metis sum_mset_sum_list)
  moreover have "length (List.map_filter id xs) = length (List.map_filter id ys)"
    using m by (metis size_mset)
  moreover have "List.map_filter id xs = [] \<longleftrightarrow> List.map_filter id ys = []"
    using m by (metis mset_zero_iff)
  ultimately show ?thesis by (simp add: mean_skipna_def Let_def)
qed

lemma mean_skipna_all_some:
  assumes "xs \<noteq> []" "\<forall>x \<in> set xs. x \<noteq> None"
  shows "mean_skipna xs = Some (sum_list (map the xs) / real (length xs))"
proof -
  have "List.map_filter id xs = map the xs"
    using assms(2) by (induction xs) (auto simp: List.map_filter_def)
  then show ?thesis using assms(1) by (simp add: mean_skipna_def Let_def)
qed

lemma filter_eq_distinct:
  "distinct L \<Longrightarrow> filter (\<lambda>x. x = s) L = (if s \<in> set L then [s] else [])"
  by (induction L) auto

lemma metric_value_outside:
  assumes "s \<notin> fold_segments f"
  shows "metric_value f name s = None"
proof (cases "map_of (fold_metrics f) name")
  case None
  then show ?thesis by (simp add: metric_value_def)
next
  case (Some vals)
  then have "(name, vals) \<in> set (fold_metrics f)" by (rule map_of_SomeD)
  then have "s \<notin> fst ` set vals" using assms by (auto simp: fold_segments_def)
  then have "map_of vals s = None" by (simp add: map_of_eq_None_iff)
  then show ?thesis using Some by (simp add: metric_value_def)
qed

lemma fold_rows_cells:
  "List.map_filter id (map (\<lambda>r. cell_of r name) (filter (\<lambda>r. row_segment r = s) (fold_rows p)))
     = List.map_filter id [metric_value (snd p) name s]"
proof -
  obtain i f where p: "p = (i, f)" by (cases p)
  let ?L = "unique (concat (map (\<lambda>(name, values). map fst values) (fold_metrics f)))"
  let ?mk = "\<lambda>s. \<lparr>row_segment = s, row_fold_number = i,
              row_values = map (\<lambda>(name, values). (name, map_of values s)) (fold_metrics f)\<rparr>"
  have rows: "fold_rows p = map ?mk ?L" using p by (simp add: fold_rows_def fold_metrics_frame_def)
  have "filter (\<lambda>r. row_segment r = s) (fold_rows p) = map ?mk (filter (\<lambda>x. x = s) ?L)"
    unfolding rows by (simp add: filter_map comp_def)
  also have "\<dots> = (if s \<in> set ?L then [?mk s] else [])"
    by (simp add: filter_eq_distinct distinct_unique)
  finally have flt: "filter (\<lambda>r. row_segment r = s) (fold_rows p)
                       = (if s \<in> set ?L then [?mk s] else [])" .
  have setL: "set ?L = fold_segments f"
    unfolding fold_segments_list by (simp add: fold_segments_def)
  show ?thesis
  proof (cases "s \<in> fold_segments f")
    case True
    then have "?mk s \<in> set (fold_rows p)" using rows setL by auto
    then have "cell_of (?mk s) name = metric_value f name s"
      using fold_rows_props(3)[of "?mk s" i f name] p by simp
    then show ?thesis using True flt setL p by simp
  next
    case False
    then have "metric_value f name s = None" by (rule metric_value_outside)
    then show ?thesis using False flt setL p by (simp add: List.map_filter_def)
  qed
qed

lemma all_rows_cells:
  "List.map_filter id (map (\<lambda>r. cell_of r name)
       (filter (\<lambda>r. row_segment r = s) (concat (map fold_rows folds))))
     = List.map_filter id (map (\<lambda>p. metric_value (snd p) name s) folds)"
proof (induction folds)
  case Nil
  then show ?case by simp
next
  case (Cons p folds)
  have "List.map_filter id (map (\<lambda>r. cell_of r name)
          (filter (\<lambda>r. row_segment r = s) (concat (map fold_rows (p # folds)))))
        = List.map_filter id (map (\<lambda>r. cell_of r name) (filter (\<lambda>r. row_segment r = s) (fold_rows p)))
          @ List.map_filter id (map (\<lambda>r. cell_of r name)
              (filter (\<lambda>r. row_segment r = s) (concat (map fold_rows folds))))"
    by (simp add: map_filter_append)
  also have "\<dots> = List.map_filter id [metric_value (snd p) name s]
          @ List.map_filter id (map (\<lambda>p. metric_value (snd p) name s) folds)"
    by (simp only: fold_rows_cells Cons.IH)
  also have "\<dots> = List.map_filter id (map (\<lambda>p. metric_value (snd p) name s) (p # folds))"
    by (simp add: List.map_filter_def)
  finally show ?case .
qed

lemma group_mean:
  "mean_skipna (map (\<lambda>r. cell_of r name)
      (filter (\<lambda>r. row_segment r = s) (sort_key row_key (concat (map fold_rows folds)))))
     = mean_skipna (map (\<lambda>p. metric_value (snd p) name s) folds)"
proof -
  let ?rows = "concat (map fold_rows folds)"
  have "mset (map (\<lambda>r. cell_of r name) (filter (\<lambda>r. row_segment r = s) (sort_key row_key ?rows)))
      = mset (map (\<lambda>r. cell_of r name) (filter (\<lambda>r. row_segment r = s) ?rows))"
    by simp
  then have "mean_skipna (map (\<lambda>r. cell_of r name)
                (filter (\<lambda>r. row_segment r = s) (sort_key row_key ?rows)))
           = mean_skipna (map (\<lambda>r. cell_of r name) (filter (\<lambda>r. row_segment r = s) ?rows))"
    by (rule mean_skipna_mset)
  also have "\<dots> = mean_skipna (map (\<lambda>p. metric_value (snd p) name s) folds)"
    by (simp add: mean_skipna_def all_rows_cells)
  finally show ?thesis .
qed

lemma map_of_tabulate:
  "map_of (map (\<lambda>k. (k, g k)) ks) k = (if k \<in> set ks then Some (g k) else None)"
  by (induction ks) auto

lemma row_key_lambda: "(\<lambda>r. (row_segment r, row_fold_number r)) = row_key"
  by (simp add: row_key_def fun_eq_iff)

lemma get_metrics_fst:
  assumes "cv_folds self \<noteq> []"
  shows "fst (get_metrics self b)
         = (if b
            then Inr (Aggregated (fst (append_fold_metrics (cv_folds self) ([], [])))
                   (groupby_segment_mean (fst (append_fold_metrics (cv_folds self) ([], [])))
                      (sort_key row_key (concat (map fold_rows (cv_folds self))))))
            else Inr (PerFold (fst (append_fold_metrics (cv_folds self) ([], [])))
                   (sort_key row_key (concat (map fold_rows (cv_folds self))))))"
proof -
  obtain N R where nr: "append_fold_metrics (cv_folds self) ([], []) = (N, R)"
    by (cases "append_fold_metrics (cv_folds self) ([], [])") auto
  have R: "R = concat (map fold_rows (cv_folds self))"
    using append_fold_metrics_rows[of "cv_folds self" "([], [])"] nr by simp
  show ?thesis
    using assms nr R by (simp add: get_metrics_def Let_def row_key_lambda)
qed

lemma groupby_segments:
  "map agg_segment (groupby_segment_mean names rows) = sort (unique (map row_segment rows))"
  by (simp add: groupby_segment_mean_def comp_def)

lemma groupby_values:
  assumes "a \<in> set (groupby_segment_mean names rows)"
  shows "agg_values a = map (\<lambda>name. (name, mean_skipna
                                 (map (\<lambda>r. cell_of r name)
                                    (filter (\<lambda>r. row_segment r = agg_segment a) rows)))) names"
  using assms by (auto simp: groupby_segment_mean_def)

lemma all_rows_segments:
  "row_segment ` set (concat (map fold_rows folds)) = (\<Union>p \<in> set folds. fold_segments (snd p))"
proof -
  have k: "row_segment ` set (fold_rows p) = fold_segments (snd p)" for p
    using set_fold_rows_segments[of "fst p" "snd p"] by simp
  show ?thesis by (simp add: image_UN k)
qed

subsection \<open>The two shapes of the table\<close>

text \<open>
  Claim C7. Let the object hold at least one fold result, under distinct fold numbers.
  With \<open>aggregate_metrics = False\<close> the table has the metric columns of the stored folds
  and one row per pair of a stored fold and a segment that fold has metric values for;
  every row carries its fold number and, for each metric, the value the fold stores for
  that segment; the rows are sorted by \<open>(segment, fold_number)\<close> ascending. With
  \<open>aggregate_metrics = True\<close> the table has exactly one row per distinct segment, in
  ascending order and without a fold number; the value of a metric in the row of a
  segment is the mean of the values the stored folds have for that metric and segment
  (missing values are skipped), which is their sum divided by the number of stored
  folds when every stored fold has one. Metric values are real numbers here.
\<close>

theorem get_metrics_tables:
  assumes "cv_folds self \<noteq> []" and "distinct (map fst (cv_folds self))"
  shows "\<exists>names rows aggs.
      fst (get_metrics self False) = Inr (PerFold names rows)
    \<and> fst (get_metrics self True) = Inr (Aggregated names aggs)
    \<and> sorted (map row_key rows) \<and> distinct (map row_key rows)
    \<and> set (map row_key rows)
        = {(s, i). \<exists>f. (i, f) \<in> set (cv_folds self) \<and> s \<in> fold_segments f}
    \<and> (\<forall>r \<in> set rows. \<forall>f name. (row_fold_number r, f) \<in> set (cv_folds self) \<longrightarrow>
          cell_of r name = metric_value f name (row_segment r))
    \<and> sorted (map agg_segment aggs) \<and> distinct (map agg_segment aggs)
    \<and> set (map agg_segment aggs) = (\<Union>p \<in> set (cv_folds self). fold_segments (snd p))
    \<and> set names = (\<Union>p \<in> set (cv_folds self). fst ` set (fold_metrics (snd p)))
    \<and> (\<forall>a \<in> set aggs. map fst (agg_values a) = names)
    \<and> (\<forall>a \<in> set aggs. \<forall>name \<in> set names.
          map_of (agg_values a) name
            = Some (mean_skipna (map (\<lambda>p. metric_value (snd p) name (agg_segment a))
                                  (cv_folds self))))
    \<and> (\<forall>a \<in> set aggs. \<forall>name \<in> set names.
          (\<forall>p \<in> set (cv_folds self). metric_value (snd p) name (agg_segment a) \<noteq> None) \<longrightarrow>
          map_of (agg_values a) name
            = Some (Some (sum_list (map (\<lambda>p. the (metric_value (snd p) name (agg_segment a)))
                                     (cv_folds self))
                          / real (length (cv_folds self)))))"
proof -
  let ?folds = "cv_folds self"
  let ?N = "fst (append_fold_metrics ?folds ([], []))"
  let ?U = "concat (map fold_rows ?folds)"
  let ?R = "sort_key row_key ?U"
  let ?A = "groupby_segment_mean ?N ?R"
  have g1: "fst (get_metrics self False) = Inr (PerFold ?N ?R)"
    using get_metrics_fst[OF assms(1), of False] by simp
  have g2: "fst (get_metrics self True) = Inr (Aggregated ?N ?A)"
    using get_metrics_fst[OF assms(1), of True] by simp
  have s1: "sorted (map row_key ?R)" by (rule sorted_sort_key)
  have m: "mset (map row_key ?R) = mset (map row_key ?U)" by simp
  have d1: "distinct (map row_key ?R)"
    using mset_eq_imp_distinct_iff[OF m] distinct_all_keys[OF assms(2)] by blast
  have k1: "set (map row_key ?R) = {(s, i). \<exists>f. (i, f) \<in> set ?folds \<and> s \<in> fold_segments f}"
    using set_all_keys[of ?folds] by simp
  have c1: "\<forall>r \<in> set ?R. \<forall>f name. (row_fold_number r, f) \<in> set ?folds \<longrightarrow>
          cell_of r name = metric_value f name (row_segment r)"
  proof (intro ballI allI impI)
    fix r f name assume r: "r \<in> set ?R" and f: "(row_fold_number r, f) \<in> set ?folds"
    from r obtain p where p: "p \<in> set ?folds" "r \<in> set (fold_rows p)" by auto
    obtain i f' where pf: "p = (i, f')" by (cases p)
    have i: "row_fold_number r = i" and c: "cell_of r name = metric_value f' name (row_segment r)"
      using fold_rows_props(1)[of r i f'] fold_rows_props(3)[of r i f' name] p(2) pf by simp_all
    have "(i, f) \<in> set ?folds" "(i, f') \<in> set ?folds" using f p(1) pf i by simp_all
    then have "f = f'" by (rule eq_key_imp_eq_value[OF assms(2)])
    then show "cell_of r name = metric_value f name (row_segment r)" using c by simp
  qed
  have as: "map agg_segment ?A = sort (unique (map row_segment ?R))" by (rule groupby_segments)
  have s2: "sorted (map agg_segment ?A)" unfolding as by simp
  have d2: "distinct (map agg_segment ?A)" unfolding as by (simp add: distinct_unique)
  have k2: "set (map agg_segment ?A) = (\<Union>p \<in> set ?folds. fold_segments (snd p))"
    unfolding as using all_rows_segments[of ?folds] by (simp add: set_unique)
  have n: "set ?N = (\<Union>p \<in> set ?folds. fst ` set (fold_metrics (snd p)))"
    using append_fold_metrics_names[of ?folds "([], [])"] by simp
  have v0: "\<forall>a \<in> set ?A. map fst (agg_values a) = ?N"
    by (auto simp: groupby_values comp_def)
  have v1: "\<forall>a \<in> set ?A. \<forall>name \<in> set ?N.
          map_of (agg_values a) name
            = Some (mean_skipna (map (\<lambda>p. metric_value (snd p) name (agg_segment a)) ?folds))"
  proof (intro ballI)
    fix a name assume a: "a \<in> set ?A" and nm: "name \<in> set ?N"
    have "map_of (agg_values a) name
          = Some (mean_skipna (map (\<lambda>r. cell_of r name)
                     (filter (\<lambda>r. row_segment r = agg_segment a) ?R)))"
      unfolding groupby_values[OF a] using nm by (simp add: map_of_tabulate)
    then show "map_of (agg_values a) name
            = Some (mean_skipna (map (\<lambda>p. metric_value (snd p) name (agg_segment a)) ?folds))"
      by (simp only: group_mean)
  qed
  have v2: "\<forall>a \<in> set ?A. \<forall>name \<in> set ?N.
          (\<forall>p \<in> set ?folds. metric_value (snd p) name (agg_segment a) \<noteq> None) \<longrightarrow>
          map_of (agg_values a) name
            = Some (Some (sum_list (map (\<lambda>p. the (metric_value (snd p) name (agg_segment a))) ?folds)
                          / real (length ?folds)))"
  proof (intro ballI impI)
    fix a name assume a: "a \<in> set ?A" and nm: "name \<in> set ?N"
      and all: "\<forall>p \<in> set ?folds. metric_value (snd p) name (agg_segment a) \<noteq> None"
    let ?xs = "map (\<lambda>p. metric_value (snd p) name (agg_segment a)) ?folds"
    have "?xs \<noteq> []" using assms(1) by simp
    moreover have "\<forall>x \<in> set ?xs. x \<noteq> None" using all by auto
    ultimately have "mean_skipna ?xs = Some (sum_list (map the ?xs) / real (length ?xs))"
      by (rule mean_skipna_all_some)
    then show "map_of (agg_values a) name
            = Some (Some (sum_list (map (\<lambda>p. the (metric_value (snd p) name (agg_segment a))) ?folds)
                          / real (length ?folds)))"
      using v1 a nm by (simp add: comp_def)
  qed
  show ?thesis
    apply (rule exI[of _ ?N])
    apply (rule exI[of _ ?R])
    apply (rule exI[of _ ?A])
    apply (intro conjI)
                apply (rule g1)
               apply (rule g2)
              apply (rule s1)
             apply (rule d1)
            apply (rule k1)
           apply (rule c1)
          apply (rule s2)
         apply (rule d2)
        apply (rule k2)
       apply (rule n)
      apply (rule v0)
     apply (rule v1)
    apply (rule v2)
    done
qed

theorem get_metrics_tables_witness:
  "cv_folds demo_stored \<noteq> [] \<and> distinct (map fst (cv_folds demo_stored))
   \<and> (\<exists>names rows aggs.
      fst (get_metrics demo_stored False) = Inr (PerFold names rows)
    \<and> fst (get_metrics demo_stored True) = Inr (Aggregated names aggs)
    \<and> sorted (map row_key rows) \<and> distinct (map row_key rows)
    \<and> set (map row_key rows)
        = {(s, i). \<exists>f. (i, f) \<in> set (cv_folds demo_stored) \<and> s \<in> fold_segments f}
    \<and> (\<forall>r \<in> set rows. \<forall>f name. (row_fold_number r, f) \<in> set (cv_folds demo_stored) \<longrightarrow>
          cell_of r name = metric_value f name (row_segment r))
    \<and> sorted (map agg_segment aggs) \<and> distinct (map agg_segment aggs)
    \<and> set (map agg_segment aggs) = (\<Union>p \<in> set (cv_folds demo_stored). fold_segments (snd p))
    \<and> set names = (\<Union>p \<in> set (cv_folds demo_stored). fst ` set (fold_metrics (snd p)))
    \<and> (\<forall>a \<in> set aggs. map fst (agg_values a) = names)
    \<and> (\<forall>a \<in> set aggs. \<forall>name \<in> set names.
          map_of (agg_values a) name
            = Some (mean_skipna (map (\<lambda>p. metric_value (snd p) name (agg_segment a))
                                  (cv_folds demo_stored))))
    \<and> (\<forall>a \<in> set aggs. \<forall>name \<in> set names.
          (\<forall>p \<in> set (cv_folds demo_stored). metric_value (snd p) name (agg_segment a) \<noteq> None) \<longrightarrow>
          map_of (agg_values a) name
            = Some (Some (sum_list (map (\<lambda>p. the (metric_value (snd p) name (agg_segment a)))
                                     (cv_folds demo_stored))
                          / real (length (cv_folds demo_stored))))))
   \<and> fst (get_metrics demo_stored False)
     = Inr (PerFold [''MAE'']
             [\<lparr>row_segment = ''a'', row_fold_number = 0, row_values = [(''MAE'', Some 1)]\<rparr>,
              \<lparr>row_segment = ''a'', row_fold_number = 1, row_values = [(''MAE'', Some 3)]\<rparr>,
              \<lparr>row_segment = ''b'', row_fold_number = 0, row_values = [(''MAE'', Some 3)]\<rparr>,
              \<lparr>row_segment = ''b'', row_fold_number = 1, row_values = [(''MAE'', Some 5)]\<rparr>])
   \<and> fst (get_metrics demo_stored True)
     = Inr (Aggregated [''MAE'']
             [\<lparr>agg_segment = ''a'', agg_values = [(''MAE'', Some 2)]\<rparr>,
              \<lparr>agg_segment = ''b'', agg_values = [(''MAE'', Some 4)]\<rparr>])"
proof -
  have h1: "cv_folds demo_stored \<noteq> []" by (simp add: demo_stored_def)
  have h2: "distinct (map fst (cv_folds demo_stored))" by (simp add: demo_stored_def)
  note t = get_metrics_tables[OF h1 h2]
  have e1: "fst (get_metrics demo_stored False)
     = Inr (PerFold [''MAE'']
             [\<lparr>row_segment = ''a'', row_fold_number = 0, row_values = [(''MAE'', Some 1)]\<rparr>,
              \<lparr>row_segment = ''a'', row_fold_number = 1, row_values = [(''MAE'', Some 3)]\<rparr>,
              \<lparr>row_segment = ''b'', row_fold_number = 0, row_values = [(''MAE'', Some 3)]\<rparr>,
              \<lparr>row_segment = ''b'', row_fold_number = 1, row_values = [(''MAE'', Some 5)]\<rparr>])"
    by code_simp
  have e2: "fst (get_metrics demo_stored True)
     = Inr (Aggregated [''MAE'']
             [\<lparr>agg_segment = ''a'', agg_values = [(''MAE'', Some 2)]\<rparr>,
              \<lparr>agg_segment = ''b'', agg_values = [(''MAE'', Some 4)]\<rparr>])"
    by code_simp
  show ?thesis
    apply (intro conjI)
        apply (rule h1)
       apply (rule h2)
      apply (rule t)
     apply (rule e1)
    apply (rule e2)
    done
qed

end
